theory Spec2Isabelle
  imports Complex_Main "HOL-Library.Word"
begin

section \<open>Class I icosahedron truncations: data model\<close>

text \<open>
  The program \<^verbatim>\<open>icosa_truncations.cpp\<close> computes with C \<^verbatim>\<open>double\<close>s. Here a
  \<^verbatim>\<open>double\<close> is a real number: the arithmetic is exact, rounding is not modelled, and
  the C library functions \<^verbatim>\<open>sin cos atan sqrt fabs\<close> are the functions
  \<^term>\<open>sin\<close>, \<^term>\<open>cos\<close>, \<^term>\<open>arctan\<close>, \<^term>\<open>sqrt\<close>, \<^term>\<open>abs\<close>
  of the reals. The functions \<^verbatim>\<open>asin\<close>, \<^verbatim>\<open>acos\<close>, \<^verbatim>\<open>tan\<close> and the division are
  partial on the reals: where their argument is not known to be in range, the model records
  the event (see the triangle solver). A decimal literal of the source is the rational
  number it denotes.
\<close>

type_synonym double = real

text \<open>\<^verbatim>\<open>#define DTR( degree ) ( ( degree ) * 0.01745329251994329576923690768489 )\<close>\<close>

definition DTR :: "double \<Rightarrow> double" where
  "DTR degree = degree * 0.01745329251994329576923690768489"

text \<open>
  The structs of the source. The one-letter field names of the source get a prefix:
  \<^verbatim>\<open>GUT_POINT {x, y, z, w}\<close>, \<^verbatim>\<open>GUT_VECTOR {i, j, k, l}\<close>,
  \<^verbatim>\<open>SPH_TRI {a, b, c, A, B, C}\<close>.
\<close>

record GUT_POINT =
  px :: double
  py :: double
  pz :: double
  pw :: double

record GUT_VECTOR =
  vi :: double
  vj :: double
  vk :: double
  vl :: double

record GUT_SPHERICAL_COORD =
  radius :: double
  azimuth :: double
  inclination :: double

text \<open>A matrix \<^verbatim>\<open>double m[16]\<close> is a list of sixteen entries, row-major.\<close>

type_synonym matrix = "double list"

section \<open>Linear-algebra kernel\<close>

text \<open>
  \<^verbatim>\<open>mtx_multiply_matrix(a, b, c)\<close> writes the sixteen entries of \<^verbatim>\<open>c\<close>, one
  assignment each; the model returns the buffer \<^verbatim>\<open>c\<close>. Every call of the source
  passes an output buffer distinct from both inputs.
\<close>

definition mtx_multiply_matrix :: "matrix \<Rightarrow> matrix \<Rightarrow> matrix" where
  "mtx_multiply_matrix a b =
    [ a!0 * b!0 + a!1 * b!4 + a!2 * b!8 + a!3 * b!12,
      a!0 * b!1 + a!1 * b!5 + a!2 * b!9 + a!3 * b!13,
      a!0 * b!2 + a!1 * b!6 + a!2 * b!10 + a!3 * b!14,
      a!0 * b!3 + a!1 * b!7 + a!2 * b!11 + a!3 * b!15,

      a!4 * b!0 + a!5 * b!4 + a!6 * b!8 + a!7 * b!12,
      a!4 * b!1 + a!5 * b!5 + a!6 * b!9 + a!7 * b!13,
      a!4 * b!2 + a!5 * b!6 + a!6 * b!10 + a!7 * b!14,
      a!4 * b!3 + a!5 * b!7 + a!6 * b!11 + a!7 * b!15,

      a!8 * b!0 + a!9 * b!4 + a!10 * b!8 + a!11 * b!12,
      a!8 * b!1 + a!9 * b!5 + a!10 * b!9 + a!11 * b!13,
      a!8 * b!2 + a!9 * b!6 + a!10 * b!10 + a!11 * b!14,
      a!4 * b!3 + a!5 * b!7 + a!6 * b!11 + a!7 * b!15,

      a!12 * b!0 + a!13 * b!4 + a!14 * b!8 + a!15 * b!12,
      a!12 * b!1 + a!13 * b!5 + a!14 * b!9 + a!15 * b!13,
      a!12 * b!2 + a!13 * b!6 + a!14 * b!10 + a!15 * b!14,
      a!12 * b!3 + a!13 * b!7 + a!14 * b!11 + a!15 * b!15 ]"

text \<open>\<^verbatim>\<open>mtx_set_unity\<close>: all sixteen entries zeroed, then the diagonal set to one.\<close>

definition mtx_set_unity :: matrix where
  "mtx_set_unity = [1, 0, 0, 0,  0, 1, 0, 0,  0, 0, 1, 0,  0, 0, 0, 1]"

text \<open>The entry of the row-major product at row \<open>r\<close>, column \<open>k\<close>, as the specification
  states it: the sum over \<open>j\<close> of \<open>A[r*4+j] * B[j*4+k]\<close>.\<close>

definition product_entry :: "matrix \<Rightarrow> matrix \<Rightarrow> nat \<Rightarrow> nat \<Rightarrow> double" where
  "product_entry a b r k = (\<Sum>j\<leftarrow>[0..<4]. a ! (r * 4 + j) * b ! (j * 4 + k))"

section \<open>Spherical/Cartesian converter\<close>

text \<open>\<^verbatim>\<open>gut_spherical_to_cartesian(sc, p)\<close> writes \<^verbatim>\<open>p->x, p->y, p->z\<close> and leaves
  \<^verbatim>\<open>p->w\<close> as it was.\<close>

definition gut_spherical_to_cartesian :: "GUT_SPHERICAL_COORD \<Rightarrow> GUT_POINT \<Rightarrow> GUT_POINT" where
  "gut_spherical_to_cartesian sc p =
     p\<lparr> px := radius sc * sin (inclination sc) * cos (azimuth sc),
        py := radius sc * sin (inclination sc) * sin (azimuth sc),
        pz := radius sc * cos (inclination sc) \<rparr>"

text \<open>
  \<^verbatim>\<open>gut_cartesian_to_spherical(p, s)\<close> updates the fields of \<^verbatim>\<open>*s\<close>; the model takes
  the prior contents of \<^verbatim>\<open>*s\<close> and returns the new ones. The radius is written first;
  \<^verbatim>\<open>return\<close> in the \<^verbatim>\<open>else\<close> of the radius test leaves the function with the other
  two fields untouched. \<^verbatim>\<open>ZERO\<close> is the local constant of the function. \<^verbatim>\<open>acos\<close> is \<^term>\<open>arccos\<close>: its argument \<open>z / radius\<close> lies
  in \<open>[-1, 1]\<close> for every real point with a non-zero radius.
\<close>

definition ZERO :: double where
  "ZERO = 0.00000000000001"

definition gut_cartesian_to_spherical :: "GUT_POINT \<Rightarrow> GUT_SPHERICAL_COORD \<Rightarrow> GUT_SPHERICAL_COORD" where
  "gut_cartesian_to_spherical p s0 =
    (let s = s0\<lparr>radius := sqrt (px p * px p + py p * py p + pz p * pz p)\<rparr>
     in
       if \<bar>radius s\<bar> > ZERO then
         (let s = s\<lparr>inclination := arccos (pz p / radius s)\<rparr> in
           if \<bar>px p\<bar> \<le> ZERO then
             (if \<bar>py p\<bar> \<le> ZERO then s\<lparr>azimuth := 0\<rparr>
              else if py p > 0 then s\<lparr>azimuth := DTR 90\<rparr>
              else s\<lparr>azimuth := DTR (- 90)\<rparr>)
           else if px p > 0 then
             (if \<bar>py p\<bar> \<le> ZERO then s\<lparr>azimuth := 0\<rparr>
              else if py p > 0 then s\<lparr>azimuth := arctan (py p / px p)\<rparr>
              else s\<lparr>azimuth := arctan (py p / px p)\<rparr>)
           else
             (if \<bar>py p\<bar> \<le> ZERO then s\<lparr>azimuth := DTR 180\<rparr>
              else if py p > 0 then s\<lparr>azimuth := DTR 180 + arctan (py p / px p)\<rparr>
              else s\<lparr>azimuth := DTR (- 180) + arctan (py p / px p)\<rparr>))
       else s)"

section \<open>Constraint solver\<close>

text \<open>
  The local struct \<^verbatim>\<open>prob\<close> of \<^verbatim>\<open>build_loop\<close>. The counter \<^verbatim>\<open>int loop\<close> is a
  32-bit word.
\<close>

record prob_t =
  delta :: double
  tolerance :: double
  loop :: "32 word"
  lastdiff :: double
  dir :: "32 word"

text \<open>
  \<^verbatim>\<open>typedef double BUILD(double*, void*)\<close>: a build function reads and may write the
  seed behind its first argument and the state behind its second one. In the model it maps
  the seed and the state to the residual, the seed and the state after the call.
\<close>

type_synonym 's BUILD = "double \<Rightarrow> 's \<Rightarrow> double \<times> double \<times> 's"

text \<open>
  What a call of \<^verbatim>\<open>build_loop\<close> leaves behind: the value returned, the final
  \<^verbatim>\<open>*seed\<close>, the final state behind \<^verbatim>\<open>var\<close>, the residuals returned by the
  successive calls of \<^verbatim>\<open>buildFunction\<close> (in call order), and the values printed by the
  \<^verbatim>\<open>printf\<close> of the iteration-cap diagnostic.
\<close>

record 's build_run =
  ret :: double
  seed_out :: double
  var_out :: 's
  calls :: "double list"
  printed :: "double list"

text \<open>\<^verbatim>\<open>max = 200\<close> and \<^verbatim>\<open>inc = DTR(0.5)\<close>, the locals of \<^verbatim>\<open>build_loop\<close>.\<close>

definition max_loop :: "32 word" where
  "max_loop = 200"

definition inc :: double where
  "inc = DTR 0.5"

text \<open>
  The seed and step update of one iteration (the \<^verbatim>\<open>if (diff > 0) ... else if (diff < 0) ...\<close>
  chain and \<^verbatim>\<open>prob.lastdiff = diff\<close>); a residual that is exactly zero changes neither the
  seed nor the step.
\<close>

definition build_loop_update :: "prob_t \<Rightarrow> double \<Rightarrow> double \<Rightarrow> double \<times> prob_t" where
  "build_loop_update prob seed diff =
    (let (seed, prob) =
       (if diff > 0 then
          (if lastdiff prob > 0 then
             (if diff < lastdiff prob then (seed + delta prob, prob)
              else (let seed = seed - delta prob;
                        prob = prob\<lparr>delta := delta prob * (- 1)\<rparr>
                    in (seed + delta prob, prob)))
           else if lastdiff prob < 0 then
             (let seed = seed - delta prob;
                  prob = prob\<lparr>delta := delta prob / (- 2)\<rparr>
              in (seed + delta prob, prob))
           else (seed + delta prob, prob))
        else if diff < 0 then
          (if lastdiff prob < 0 then
             (if diff > lastdiff prob then (seed + delta prob, prob)
              else (let seed = seed - delta prob;
                        prob = prob\<lparr>delta := delta prob * (- 1)\<rparr>
                    in (seed + delta prob, prob)))
           else if lastdiff prob > 0 then
             (let seed = seed - delta prob;
                  prob = prob\<lparr>delta := delta prob / (- 2)\<rparr>
              in (seed + delta prob, prob))
           else (seed + delta prob, prob))
        else (seed, prob))
     in (seed, prob\<lparr>lastdiff := diff\<rparr>))"

text \<open>
  The \<^verbatim>\<open>while (1)\<close> loop. Each pass increments the counter, calls the build function,
  tests the counter against \<^verbatim>\<open>max\<close>, then the residual against the tolerance, and
  otherwise updates seed and step. The counter is a 32-bit word, so from every start it
  comes to 200: the loop always ends.
\<close>

function build_loop_while ::
  "'s BUILD \<Rightarrow> prob_t \<Rightarrow> double \<Rightarrow> 's \<Rightarrow> double list \<Rightarrow> 's build_run" where
  "build_loop_while buildFunction prob seed var tr =
    (let prob = prob\<lparr>loop := loop prob + 1\<rparr>;
         (diff, seed, var) = buildFunction seed var;
         tr = tr @ [diff]
     in
       if loop prob = max_loop then
         \<lparr>ret = - 1, seed_out = seed, var_out = var, calls = tr, printed = [diff]\<rparr>
       else if \<bar>diff\<bar> \<le> tolerance prob then
         \<lparr>ret = \<bar>diff\<bar>, seed_out = seed, var_out = var, calls = tr, printed = []\<rparr>
       else
         (let (seed, prob) = build_loop_update prob seed diff
          in build_loop_while buildFunction prob seed var tr))"
  by pat_completeness auto

text \<open>The update leaves the counter and the tolerance alone.\<close>

lemma build_loop_update_loop:
  "build_loop_update prob seed diff = (seed', prob') \<Longrightarrow> loop prob' = loop prob"
  by (auto simp add: build_loop_update_def Let_def split: if_splits)

lemma loop_counter_decreases:
  fixes w :: "32 word"
  assumes "w \<noteq> 199"
  shows "unat (198 - w) < unat (199 - w)"
proof -
  have nz: "199 - w \<noteq> 0" using assms by auto
  have "198 - w = (199 - w) - 1" by simp
  then have "unat (198 - w) = unat (199 - w) - 1"
    using unat_minus_one[OF nz] by simp
  moreover have "unat (199 - w) \<noteq> 0" using nz by (simp add: unat_eq_0)
  ultimately show ?thesis by simp
qed

termination build_loop_while
proof (relation "measure (\<lambda>(f, prob, seed, var, tr). unat (199 - loop prob))")
  show "wf (measure (\<lambda>(f, prob, seed, var, tr). unat (199 - loop prob)))"
    by simp
next
  fix buildFunction :: "'s BUILD" and prob prob' prob'' :: prob_t
    and seed seed' seed'' diff :: double and var var' :: 's and tr tr' :: "double list"
    and u
  assume "prob' = prob\<lparr>loop := loop prob + 1\<rparr>"
    and "loop prob' \<noteq> max_loop"
    and u: "u = build_loop_update prob' seed' diff" "(seed'', prob'') = u"
  then have "loop prob'' = loop prob + 1" "loop prob \<noteq> 199"
    using build_loop_update_loop[of prob' seed' diff seed'' prob'']
    by (auto simp: max_loop_def)
  then show "((buildFunction, prob'', seed'', var', tr'), (buildFunction, prob, seed, var, tr))
      \<in> measure (\<lambda>(f, prob, seed, var, tr). unat (199 - loop prob))"
    using loop_counter_decreases[of "loop prob"] by simp
qed

declare build_loop_while.simps [simp del]

text \<open>
  \<^verbatim>\<open>build_loop(buildFunction, seed, r_zero, var)\<close>: the struct is initialised and the
  loop entered; after the loop the function returns \<^verbatim>\<open>fabs(diff)\<close>.
\<close>

definition build_loop :: "'s BUILD \<Rightarrow> double \<Rightarrow> double \<Rightarrow> 's \<Rightarrow> 's build_run" where
  "build_loop buildFunction seed r_zero var =
     build_loop_while buildFunction
       \<lparr>delta = inc, tolerance = r_zero, loop = 0, lastdiff = 0, dir = 1\<rparr> seed var []"

text \<open>
  A synthetic build function with the residual \<open>x - c\<close>: it reads the seed and changes
  neither the seed nor the state.
\<close>

definition residual_minus :: "double \<Rightarrow> unit BUILD" where
  "residual_minus c x v = (x - c, x, v)"

text \<open>
  What is read off a finished run: the value returned, the final seed, the number of calls of
  the build function and the values printed.
\<close>

definition run_is :: "'s build_run \<Rightarrow> double \<Rightarrow> double \<Rightarrow> nat \<Rightarrow> double list \<Rightarrow> bool" where
  "run_is r R S n pr \<longleftrightarrow> ret r = R \<and> seed_out r = S \<and> length (calls r) = n \<and> printed r = pr"

text \<open>
  A run that continues the calls \<open>tr\<close> made so far under the tolerance \<open>tol\<close>: it
  adds at least one call and makes at most 200; every added call but the last has a residual
  outside the tolerance; with fewer than 200 calls the last residual is within the tolerance
  and its magnitude is returned; with 200 calls the value \<open>-1\<close> is returned and the last
  residual printed.
\<close>

definition run_ok :: "double \<Rightarrow> double list \<Rightarrow> 's build_run \<Rightarrow> bool" where
  "run_ok tol tr r \<longleftrightarrow> (\<exists>ds. calls r = tr @ ds \<and> ds \<noteq> []
      \<and> length (tr @ ds) \<le> 200
      \<and> (\<forall>d \<in> set (butlast ds). \<not> \<bar>d\<bar> \<le> tol)
      \<and> (length (tr @ ds) < 200 \<longrightarrow> \<bar>last ds\<bar> \<le> tol \<and> ret r = \<bar>last ds\<bar> \<and> printed r = [])
      \<and> (length (tr @ ds) = 200 \<longrightarrow> ret r = - 1 \<and> printed r = [last ds]))"

section \<open>Oblique spherical-triangle solver\<close>

record SPH_TRI =
  tri_a :: double
  tri_b :: double
  tri_c :: double
  tri_A :: double
  tri_B :: double
  tri_C :: double

text \<open>
  Where the reals and IEEE arithmetic part ways, the model stops with an event instead of
  computing on: \<^verbatim>\<open>asin\<close> and \<^verbatim>\<open>acos\<close> of an argument outside \<open>[-1, 1]\<close> (a domain
  error of the C library, which returns a NaN), a division by zero (an infinity or a NaN in
  C) and the tangent at a pole. On every other input the functions below compute what the C
  code computes, read over the reals.
\<close>

datatype fp_event = AsinDomain | AcosDomain | DivideByZero | TanPole

definition bind_fp :: "fp_event + 'a \<Rightarrow> ('a \<Rightarrow> fp_event + 'b) \<Rightarrow> fp_event + 'b" where
  "bind_fp m f = (case m of Inl e \<Rightarrow> Inl e | Inr v \<Rightarrow> f v)"

definition c_asin :: "double \<Rightarrow> fp_event + double" where
  "c_asin x = (if x < - 1 \<or> 1 < x then Inl AsinDomain else Inr (arcsin x))"

definition c_acos :: "double \<Rightarrow> fp_event + double" where
  "c_acos x = (if x < - 1 \<or> 1 < x then Inl AcosDomain else Inr (arccos x))"

definition c_div :: "double \<Rightarrow> double \<Rightarrow> fp_event + double" where
  "c_div x y = (if y = 0 then Inl DivideByZero else Inr (x / y))"

definition c_tan :: "double \<Rightarrow> fp_event + double" where
  "c_tan x = (if cos x = 0 then Inl TanPole else Inr (tan x))"

text \<open>
  \<^verbatim>\<open>asin_clamp\<close>: the first \<^verbatim>\<open>if\<close> of the source has an empty body; the second
  clamps the argument, and \<^verbatim>\<open>asin\<close> is called on the clamped value.
\<close>

definition asin_clamp :: "double \<Rightarrow> fp_event + double" where
  "asin_clamp equation =
    (let equation = (if equation > 1 then 1
                     else if equation < - 1 then - 1
                     else equation)
     in c_asin equation)"

text \<open>
  The two candidates of the complex case of \<^verbatim>\<open>sph_tri_bcC\<close> (the assignments to
  \<^verbatim>\<open>B\<close>, \<^verbatim>\<open>B2\<close>, \<^verbatim>\<open>A\<close> and \<^verbatim>\<open>A2\<close>, before the test \<^verbatim>\<open>A < 0\<close>).
\<close>

record candidates =
  cand_A :: double
  cand_B :: double
  cand_A2 :: double
  cand_B2 :: double

definition sph_tri_bcC_candidates :: "double \<Rightarrow> double \<Rightarrow> double \<Rightarrow> fp_event + candidates" where
  "sph_tri_bcC_candidates b c C =
     bind_fp (c_div (sin C * sin b) (sin c)) (\<lambda>q.
     bind_fp (c_asin q) (\<lambda>B.
     let B2 = DTR 180 - B in
     bind_fp (c_tan ((C - B) / 2)) (\<lambda>t.
     bind_fp (c_div (t * sin ((c + b) / 2)) (sin ((c - b) / 2))) (\<lambda>v.
     bind_fp (c_div 1 v) (\<lambda>w.
     let A = arctan w * 2 in
     bind_fp (c_tan ((C - B2) / 2)) (\<lambda>t2.
     bind_fp (c_div (t2 * sin ((c + b) / 2)) (sin ((c - b) / 2))) (\<lambda>v2.
     bind_fp (c_div 1 v2) (\<lambda>w2.
     let A2 = arctan w2 * 2 in
     Inr \<lparr>cand_A = A, cand_B = B, cand_A2 = A2, cand_B2 = B2\<rparr>))))))))"

text \<open>
  \<^verbatim>\<open>sph_tri_bcC(st)\<close> reads \<^verbatim>\<open>b\<close>, \<^verbatim>\<open>c\<close>, \<^verbatim>\<open>C\<close> and writes \<^verbatim>\<open>B\<close>,
  \<^verbatim>\<open>A\<close>, \<^verbatim>\<open>a\<close>. The complex case calls \<^verbatim>\<open>asin\<close> itself, the other case calls
  \<^verbatim>\<open>asin_clamp\<close>.
\<close>

definition sph_tri_bcC :: "SPH_TRI \<Rightarrow> fp_event + SPH_TRI" where
  "sph_tri_bcC st =
    (let b = tri_b st; c = tri_c st; C = tri_C st in
     if b > c \<and> C < DTR 90 then
       bind_fp (sph_tri_bcC_candidates b c C) (\<lambda>cs.
       let (A, B) = (if cand_A cs < 0 then (cand_A2 cs, cand_B2 cs) else (cand_A cs, cand_B cs)) in
       bind_fp (c_div (sin A * sin b) (sin B)) (\<lambda>q.
       bind_fp (c_asin q) (\<lambda>a.
       Inr (st\<lparr>tri_B := B, tri_A := A, tri_a := a\<rparr>))))
     else
       bind_fp (c_div (sin b * sin C) (sin c)) (\<lambda>q.
       bind_fp (asin_clamp q) (\<lambda>B.
       bind_fp (c_tan ((b + c) / 2)) (\<lambda>t.
       bind_fp (c_div (t * cos ((B + C) / 2)) (cos ((B - C) / 2))) (\<lambda>w.
       let a = 2 * arctan w in
       bind_fp (c_div (cos a - cos b * cos c) (sin b * sin c)) (\<lambda>q2.
       bind_fp (c_acos q2) (\<lambda>A.
       Inr (st\<lparr>tri_B := B, tri_A := A, tri_a := a\<rparr>))))))))"

text \<open>
  The candidates in the words of the specification: \<open>B\<close> is the arcsine of
  \<open>sin C * sin b / sin c\<close>, and the angle \<open>A\<close> that goes with a candidate \<open>B\<close> comes
  from the half-angle tangent relation with \<open>(C - B) / 2\<close>, \<open>(c + b) / 2\<close> and
  \<open>(c - b) / 2\<close>.
\<close>

definition spec_B :: "double \<Rightarrow> double \<Rightarrow> double \<Rightarrow> double" where
  "spec_B b c C = arcsin (sin C * sin b / sin c)"

definition spec_A :: "double \<Rightarrow> double \<Rightarrow> double \<Rightarrow> double \<Rightarrow> double" where
  "spec_A b c C B = 2 * arctan (1 / (tan ((C - B) / 2) * sin ((c + b) / 2) / sin ((c - b) / 2)))"

section \<open>Symmetry transform builder\<close>

text \<open>
  The arrays of the source are lists: \<^verbatim>\<open>VERTEX {p[6], sc[6]}\<close>,
  \<^verbatim>\<open>SUBFACE {sub[6].m}\<close> (six matrices), and \<^verbatim>\<open>PROGRAM\<close> with the face matrices, the
  table \<^verbatim>\<open>subface[6]\<close>, the reference triangle and the vertices \<^verbatim>\<open>v[20]\<close>.
\<close>

record VERTEX =
  v_p :: "GUT_POINT list"
  v_sc :: "GUT_SPHERICAL_COORD list"

type_synonym SUBFACE = "matrix list"

record FACE =
  tm :: matrix
  tmt :: matrix
  m0 :: matrix
  mt0 :: matrix
  m1 :: matrix
  mt1 :: matrix
  m2 :: matrix
  mt2 :: matrix

record PROGRAM =
  pgm_face :: FACE
  pgm_subface :: "SUBFACE list"
  pgm_ref :: SPH_TRI
  pgm_v :: "VERTEX list"

text \<open>The casts \<^verbatim>\<open>(GUT_VECTOR*)\<close> of a point: the four doubles are read as a vector.\<close>

definition as_vector :: "GUT_POINT \<Rightarrow> GUT_VECTOR" where
  "as_vector p = \<lparr>vi = px p, vj = py p, vk = pz p, vl = pw p\<rparr>"

definition as_point :: "GUT_VECTOR \<Rightarrow> GUT_POINT" where
  "as_point v = \<lparr>px = vi v, py = vj v, pz = vk v, pw = vl v\<rparr>"

text \<open>\<^verbatim>\<open>gut_vector\<close>, \<^verbatim>\<open>gut_cross_product\<close> write three fields of their output and
  leave the fourth.\<close>

definition gut_vector :: "GUT_POINT \<Rightarrow> GUT_POINT \<Rightarrow> GUT_VECTOR \<Rightarrow> GUT_VECTOR" where
  "gut_vector a b v = v\<lparr>vi := px b - px a, vj := py b - py a, vk := pz b - pz a\<rparr>"

definition gut_cross_product :: "GUT_VECTOR \<Rightarrow> GUT_VECTOR \<Rightarrow> GUT_VECTOR \<Rightarrow> GUT_VECTOR" where
  "gut_cross_product a b c =
     c\<lparr>vi := vj a * vk b - vk a * vj b,
       vj := vk a * vi b - vi a * vk b,
       vk := vi a * vj b - vj a * vi b\<rparr>"

text \<open>\<^verbatim>\<open>gut_normalize_vector\<close> divides by the length: a vector of length zero is a
  division by zero.\<close>

definition gut_normalize_vector :: "GUT_VECTOR \<Rightarrow> fp_event + GUT_VECTOR" where
  "gut_normalize_vector v =
    (let distance = sqrt (vi v * vi v + vj v * vj v + vk v * vk v) in
     bind_fp (c_div (vi v) distance) (\<lambda>i.
     bind_fp (c_div (vj v) distance) (\<lambda>j.
     bind_fp (c_div (vk v) distance) (\<lambda>k.
     Inr (v\<lparr>vi := i, vj := j, vk := k\<rparr>)))))"

text \<open>\<^verbatim>\<open>mtx_create_scale_matrix\<close>: the unit matrix with the diagonal overwritten.\<close>

definition mtx_create_scale_matrix :: "double \<Rightarrow> double \<Rightarrow> double \<Rightarrow> matrix" where
  "mtx_create_scale_matrix x y z = mtx_set_unity[0 := x, 5 := y, 10 := z]"

text \<open>\<^verbatim>\<open>mtx_transpose_matrix\<close>: the two loops swap \<^verbatim>\<open>m[r*4+c]\<close> and \<^verbatim>\<open>m[c*4+r]\<close>
  for \<open>r < c\<close>.\<close>

definition mtx_transpose_matrix :: "matrix \<Rightarrow> matrix" where
  "mtx_transpose_matrix m =
     foldl (\<lambda>m (r, c).
        let fr = r * 4 + c; to = c * 4 + r; temp = m ! to;
            m = m[to := m ! fr]
        in m[fr := temp])
       m (concat (map (\<lambda>r. map (\<lambda>c. (r, c)) [r + 1 ..< 4]) [0 ..< 4]))"

text \<open>\<^verbatim>\<open>mtx_vec4_multiply(length, a, b, m)\<close>: one output vector is four assignments;
  \<open>a\<close> and \<open>b\<close> are arrays of vectors (of one element for \<^verbatim>\<open>length == 1\<close>), and the
  result is the array \<open>b\<close>.\<close>

definition vec4_times :: "GUT_VECTOR \<Rightarrow> matrix \<Rightarrow> GUT_VECTOR" where
  "vec4_times a m =
     \<lparr>vi = vi a * m!0 + vj a * m!4 + vk a * m!8 + vl a * m!12,
      vj = vi a * m!1 + vj a * m!5 + vk a * m!9 + vl a * m!13,
      vk = vi a * m!2 + vj a * m!6 + vk a * m!10 + vl a * m!14,
      vl = vi a * m!3 + vj a * m!7 + vk a * m!11 + vl a * m!15\<rparr>"

definition mtx_vec4_multiply ::
  "int \<Rightarrow> GUT_VECTOR list \<Rightarrow> GUT_VECTOR list \<Rightarrow> matrix \<Rightarrow> GUT_VECTOR list" where
  "mtx_vec4_multiply length' a b m =
    (if length' < 1 then b
     else if length' = 1 then b[0 := vec4_times (a ! 0) m]
     else foldl (\<lambda>b i. b[i := vec4_times (a ! i) m]) b [0 ..< nat length'])"

text \<open>\<^verbatim>\<open>build_rotation_matrix(x, y, z, m, mt)\<close>: the matrix and its transpose.\<close>

definition build_rotation_matrix :: "GUT_VECTOR \<Rightarrow> GUT_VECTOR \<Rightarrow> GUT_VECTOR \<Rightarrow> matrix \<times> matrix" where
  "build_rotation_matrix x y z =
    (let m = [vi x, vi y, vi z, 0,
              vj x, vj y, vj z, 0,
              vk x, vk y, vk z, 0,
              0, 0, 0, 1]
     in (m, mtx_transpose_matrix m))"

text \<open>
  \<^verbatim>\<open>build_a_transforms\<close> fills all 36 entries of the table from \<^verbatim>\<open>face.m1\<close>,
  \<^verbatim>\<open>face.mt1\<close>, \<^verbatim>\<open>face.m2\<close>, \<^verbatim>\<open>face.mt2\<close> and the mirror \<^verbatim>\<open>mx\<close>; \<^verbatim>\<open>mm\<close>
  is the temporary of the three-factor products.
\<close>

definition build_a_transforms :: "PROGRAM \<Rightarrow> PROGRAM" where
  "build_a_transforms pgm =
    (let mx = mtx_create_scale_matrix (- 1) 1 1;
         f = pgm_face pgm;
         mm1 = mtx_multiply_matrix (m1 f) mx;
         mm2 = mtx_multiply_matrix (m2 f) mx
     in pgm\<lparr>pgm_subface :=
       [ [ mtx_set_unity,
           mtx_multiply_matrix mx (mt1 f),
           mt1 f,
           mtx_multiply_matrix mx (mt2 f),
           mt2 f,
           mx ],
         [ mtx_multiply_matrix (m1 f) mx,
           mtx_set_unity,
           mtx_multiply_matrix mm1 (mt1 f),
           mtx_multiply_matrix (m1 f) (mt2 f),
           mx,
           m1 f ],
         [ m1 f,
           mtx_multiply_matrix mm1 (mt1 f),
           mtx_set_unity,
           mx,
           mtx_multiply_matrix (m1 f) (mt2 f),
           mtx_multiply_matrix (m1 f) mx ],
         [ mtx_multiply_matrix (m2 f) mx,
           mtx_multiply_matrix (m2 f) (mt1 f),
           mx,
           mtx_set_unity,
           mtx_multiply_matrix mm2 (mt2 f),
           m2 f ],
         [ m2 f,
           mx,
           mtx_multiply_matrix (m2 f) (mt1 f),
           mtx_multiply_matrix mm2 (mt2 f),
           mtx_set_unity,
           mtx_multiply_matrix (m2 f) mx ],
         [ mx,
           mt1 f,
           mtx_multiply_matrix mx (mt1 f),
           mt2 f,
           mtx_multiply_matrix mx (mt2 f),
           mtx_set_unity ] ]\<rparr>)"

text \<open>\<^verbatim>\<open>subface_exchange(aSrc, aDst, pSrc, pDst, subface)\<close> returns the point written to
  \<^verbatim>\<open>*pDst\<close>.\<close>

definition subface_exchange ::
  "nat \<Rightarrow> nat \<Rightarrow> GUT_POINT \<Rightarrow> GUT_POINT \<Rightarrow> SUBFACE list \<Rightarrow> GUT_POINT" where
  "subface_exchange aSrc aDst pSrc pDst subface =
     as_point (mtx_vec4_multiply 1 [as_vector pSrc] [as_vector pDst] (subface ! aSrc ! aDst) ! 0)"

text \<open>
  \<^verbatim>\<open>build_subface_transforms\<close>: the three frames of the equilateral triangle. The local
  vectors are written before they are read (their fourth field never is); they start as
  \<open>zero_vector\<close>. In the first frame the source normalises \<^verbatim>\<open>vz\<close> a second time where
  the other two normalise \<^verbatim>\<open>vy\<close>.
\<close>

definition zero_vector :: GUT_VECTOR where
  "zero_vector = \<lparr>vi = 0, vj = 0, vk = 0, vl = 0\<rparr>"

definition zero_point :: GUT_POINT where
  "zero_point = \<lparr>px = 0, py = 0, pz = 0, pw = 0\<rparr>"

definition build_subface_transforms :: "PROGRAM \<Rightarrow> fp_event + PROGRAM" where
  "build_subface_transforms pgm =
    (let p = [ zero_point\<lparr>px := 0.5, py := - sqrt 3 / 6, pz := 0\<rparr>,
               zero_point\<lparr>px := 0, py := sqrt 3 / 3, pz := 0\<rparr>,
               zero_point\<lparr>px := - 0.5, py := - sqrt 3 / 6, pz := 0\<rparr> ];
         vx = gut_vector (p ! 2) (p ! 0) zero_vector in
     bind_fp (gut_normalize_vector vx) (\<lambda>vx.
     let vy = gut_vector (p ! 2) (p ! 1) zero_vector in
     bind_fp (gut_normalize_vector vy) (\<lambda>vy.
     let vz = gut_cross_product vx vy zero_vector in
     bind_fp (gut_normalize_vector vz) (\<lambda>vz.
     let vy = gut_cross_product vz vx vy in
     bind_fp (gut_normalize_vector vz) (\<lambda>vz.
     let (m0', mt0') = build_rotation_matrix vx vy vz;
         vx = gut_vector (p ! 0) (p ! 1) vx in
     bind_fp (gut_normalize_vector vx) (\<lambda>vx.
     let vy = gut_vector (p ! 0) (p ! 2) vy in
     bind_fp (gut_normalize_vector vy) (\<lambda>vy.
     let vz = gut_cross_product vx vy vz in
     bind_fp (gut_normalize_vector vz) (\<lambda>vz.
     let vy = gut_cross_product vz vx vy in
     bind_fp (gut_normalize_vector vy) (\<lambda>vy.
     let (m1', mt1') = build_rotation_matrix vx vy vz;
         vx = gut_vector (p ! 1) (p ! 2) vx in
     bind_fp (gut_normalize_vector vx) (\<lambda>vx.
     let vy = gut_vector (p ! 1) (p ! 0) vy in
     bind_fp (gut_normalize_vector vy) (\<lambda>vy.
     let vz = gut_cross_product vx vy vz in
     bind_fp (gut_normalize_vector vz) (\<lambda>vz.
     let vy = gut_cross_product vz vx vy in
     bind_fp (gut_normalize_vector vy) (\<lambda>vy.
     let (m2', mt2') = build_rotation_matrix vx vy vz in
     Inr (pgm\<lparr>pgm_face := (pgm_face pgm)
            \<lparr>m0 := m0', mt0 := mt0', m1 := m1', mt1 := mt1', m2 := m2', mt2 := mt2'\<rparr>\<rparr>))))))))))))))"

text \<open>
  \<^verbatim>\<open>rotation_matrix_from_triangle(p0, p1, p2, mr, mrt)\<close>; the centre \<^verbatim>\<open>t\<close> that the
  source computes first is not used.
\<close>

definition rotation_matrix_from_triangle ::
  "GUT_POINT \<Rightarrow> GUT_POINT \<Rightarrow> GUT_POINT \<Rightarrow> fp_event + matrix \<times> matrix" where
  "rotation_matrix_from_triangle p0 p1 p2 =
    (let x = gut_vector p2 p0 zero_vector;
         y = gut_vector p2 p1 zero_vector in
     bind_fp (gut_normalize_vector x) (\<lambda>x.
     bind_fp (gut_normalize_vector y) (\<lambda>y.
     let z = gut_cross_product x y zero_vector in
     bind_fp (gut_normalize_vector z) (\<lambda>z.
     let y = gut_cross_product z x y in
     bind_fp (gut_normalize_vector y) (\<lambda>y.
     let mr = [vi x, vi y, vi z, 0,
               vj x, vj y, vj z, 0,
               vk x, vk y, vk z, 0,
               0, 0, 0, 1]
     in Inr (mr, mtx_transpose_matrix mr))))))"

text \<open>\<^verbatim>\<open>build_face_transforms\<close>: the corners of the equatorial face, from spherical
  coordinates, and the rotation of the triangle \<^verbatim>\<open>vtx[0], vtx[1], vtx[2]\<close>.\<close>

definition build_face_transforms :: "PROGRAM \<Rightarrow> fp_event + PROGRAM" where
  "build_face_transforms pgm =
    (let vtx = replicate 6 zero_point;
         sc = \<lparr>radius = 1, azimuth = 0, inclination = arctan 2\<rparr>;
         vtx = vtx[1 := gut_spherical_to_cartesian sc (vtx ! 1)];
         sc = \<lparr>radius = 1, azimuth = DTR (- 36), inclination = DTR 180 - arctan 2\<rparr>;
         vtx = vtx[2 := gut_spherical_to_cartesian sc (vtx ! 2)];
         sc = \<lparr>radius = 1, azimuth = DTR 36, inclination = DTR 180 - arctan 2\<rparr>;
         vtx = vtx[0 := gut_spherical_to_cartesian sc (vtx ! 0)];
         sc = \<lparr>radius = 1, azimuth = DTR 72, inclination = arctan 2\<rparr>;
         vtx = vtx[3 := gut_spherical_to_cartesian sc (vtx ! 3)]
     in bind_fp (rotation_matrix_from_triangle (vtx ! 0) (vtx ! 1) (vtx ! 2)) (\<lambda>(mr, mrt).
        Inr (pgm\<lparr>pgm_face := (pgm_face pgm)\<lparr>tm := mr, tmt := mrt\<rparr>\<rparr>)))"

section \<open>Vertex generator\<close>

text \<open>
  \<^verbatim>\<open>generate_all_vertices(pgm, v, a)\<close>: the known point of vertex \<open>v\<close> in area \<open>a\<close> goes
  to global position, is exchanged into the five other areas, and the six points come back
  to local position; then the spherical coordinates of the six are recomputed. The local
  arrays \<^verbatim>\<open>lp\<close> and \<^verbatim>\<open>gp\<close> are written before they are read.
\<close>

definition generate_all_vertices :: "PROGRAM \<Rightarrow> nat \<Rightarrow> nat \<Rightarrow> PROGRAM" where
  "generate_all_vertices pgm v a =
    (let lp = replicate 6 zero_point;
         gp = replicate 6 zero_point;
         lp = lp[a := v_p (pgm_v pgm ! v) ! a];
         gp = gp[a := as_point
                (mtx_vec4_multiply 1 [as_vector (lp ! a)] [as_vector (gp ! a)] (tm (pgm_face pgm)) ! 0)];
         gp = foldl (\<lambda>gp i. if a = i then gp
                              else gp[i := subface_exchange a i (gp ! a) (gp ! i) (pgm_subface pgm)])
                gp [0 ..< 6];
         vert = pgm_v pgm ! v;
         vert = vert\<lparr>v_p := map as_point
                  (mtx_vec4_multiply 6 (map as_vector gp) (map as_vector (v_p vert))
                     (tmt (pgm_face pgm)))\<rparr>;
         vert = foldl (\<lambda>vert i. vert\<lparr>v_sc := (v_sc vert)
                          [i := gut_cartesian_to_spherical (v_p vert ! i) (v_sc vert ! i)]\<rparr>)
                  vert [0 ..< 6]
     in pgm\<lparr>pgm_v := (pgm_v pgm)[v := vert]\<rparr>)"

text \<open>\<^verbatim>\<open>create_vertex_by_sc\<close>: the spherical coordinates are stored in area \<open>a\<close> with
  radius 1, converted, and the vertex replicated.\<close>

definition create_vertex_by_sc :: "PROGRAM \<Rightarrow> nat \<Rightarrow> nat \<Rightarrow> double \<Rightarrow> double \<Rightarrow> PROGRAM" where
  "create_vertex_by_sc pgm v a azimuth' inclination' =
    (let vert = pgm_v pgm ! v;
         sc = (v_sc vert ! a)\<lparr>radius := 1, inclination := inclination', azimuth := azimuth'\<rparr>;
         p = gut_spherical_to_cartesian sc (v_p vert ! a);
         vert = vert\<lparr>v_sc := (v_sc vert)[a := sc], v_p := (v_p vert)[a := p]\<rparr>
     in generate_all_vertices (pgm\<lparr>pgm_v := (pgm_v pgm)[v := vert]\<rparr>) v a)"

text \<open>\<^verbatim>\<open>create_vertex_by_strig\<close>: the triangle is solved; its side \<open>c\<close> is the
  inclination and its angle \<open>A\<close> the azimuth.\<close>

definition create_vertex_by_strig ::
  "PROGRAM \<Rightarrow> nat \<Rightarrow> nat \<Rightarrow> double \<Rightarrow> double \<Rightarrow> double \<Rightarrow> fp_event + PROGRAM" where
  "create_vertex_by_strig pgm v a b c C =
    (let st = \<lparr>tri_a = 0, tri_b = b, tri_c = c, tri_A = 0, tri_B = 0, tri_C = C\<rparr> in
     bind_fp (sph_tri_bcC st) (\<lambda>st.
     let vert = pgm_v pgm ! v;
         sc = (v_sc vert ! a)\<lparr>radius := 1, inclination := tri_c st, azimuth := tri_A st\<rparr>;
         p = gut_spherical_to_cartesian sc (v_p vert ! a);
         vert = vert\<lparr>v_sc := (v_sc vert)[a := sc], v_p := (v_p vert)[a := p]\<rparr>
     in Inr (generate_all_vertices (pgm\<lparr>pgm_v := (pgm_v pgm)[v := vert]\<rparr>) v a)))"

text \<open>\<^verbatim>\<open>create_vertex_from_vertex\<close>: the side \<open>c\<close> is the inclination of the source
  vertex \<open>vs\<close> in area \<open>as\<close>.\<close>

definition create_vertex_from_vertex ::
  "PROGRAM \<Rightarrow> nat \<Rightarrow> nat \<Rightarrow> nat \<Rightarrow> nat \<Rightarrow> double \<Rightarrow> double \<Rightarrow> fp_event + PROGRAM" where
  "create_vertex_from_vertex pgm vd ad vs as b C =
     create_vertex_by_strig pgm vd ad b (inclination (v_sc (pgm_v pgm ! vs) ! as)) C"

text \<open>The squared Cartesian norm of a point and of the first three fields of a vector.\<close>

definition norm2 :: "GUT_POINT \<Rightarrow> double" where
  "norm2 p = px p * px p + py p * py p + pz p * pz p"

section \<open>Values of the symmetry transforms\<close>

text \<open>
  The matrices that the builder is shown below to compute: the rotations by 120 and 240
  degrees about the z axis, the mirror of the x axis and its two conjugates, and the table
  of \<^verbatim>\<open>build_a_transforms\<close> for these rotations.
\<close>

definition rot120 :: matrix where
  "rot120 = [- 1 / 2, - sqrt 3 / 2, 0, 0,  sqrt 3 / 2, - 1 / 2, 0, 0,  0, 0, 1, 0,  0, 0, 0, 1]"

definition rot240 :: matrix where
  "rot240 = [- 1 / 2, sqrt 3 / 2, 0, 0,  - sqrt 3 / 2, - 1 / 2, 0, 0,  0, 0, 1, 0,  0, 0, 0, 1]"

definition mirror_x :: matrix where
  "mirror_x = [- 1, 0, 0, 0,  0, 1, 0, 0,  0, 0, 1, 0,  0, 0, 0, 1]"

definition mirror_a :: matrix where
  "mirror_a = [1 / 2, sqrt 3 / 2, 0, 0,  sqrt 3 / 2, - 1 / 2, 0, 0,  0, 0, 1, 0,  0, 0, 0, 1]"

definition mirror_b :: matrix where
  "mirror_b = [1 / 2, - sqrt 3 / 2, 0, 0,  - sqrt 3 / 2, - 1 / 2, 0, 0,  0, 0, 1, 0,  0, 0, 0, 1]"

definition region_table :: "SUBFACE list" where
  "region_table = pgm_subface (build_a_transforms
      \<lparr>pgm_face = \<lparr>tm = [], tmt = [], m0 = [], mt0 = [], m1 = rot120, mt1 = rot240, m2 = rot240, mt2 = rot120\<rparr>,
       pgm_subface = [], pgm_ref = \<lparr>tri_a = 0, tri_b = 0, tri_c = 0, tri_A = 0, tri_B = 0, tri_C = 0\<rparr>, pgm_v = []\<rparr>)"

text \<open>A \<^verbatim>\<open>PROGRAM\<close> with all arrays of their declared sizes and every double zero
  (the local of \<^verbatim>\<open>main\<close> is not initialised; the builders overwrite what they use).\<close>

definition blank_program :: PROGRAM where
  "blank_program =
     \<lparr>pgm_face = \<lparr>tm = replicate 16 0, tmt = replicate 16 0, m0 = replicate 16 0,
                    mt0 = replicate 16 0, m1 = replicate 16 0, mt1 = replicate 16 0,
                    m2 = replicate 16 0, mt2 = replicate 16 0\<rparr>,
      pgm_subface = replicate 6 (replicate 6 (replicate 16 0)),
      pgm_ref = \<lparr>tri_a = 0, tri_b = 0, tri_c = 0, tri_A = 0, tri_B = 0, tri_C = 0\<rparr>,
      pgm_v = replicate 20 \<lparr>v_p = replicate 6 zero_point,
                             v_sc = replicate 6 \<lparr>radius = 0, azimuth = 0, inclination = 0\<rparr>\<rparr>\<rparr>"

section \<open>Frames and norms\<close>

text \<open>
  Notions of the proofs about the vertex generator: a vector of length one; a matrix whose
  columns are a right-handed orthonormal frame \<open>x\<close>, \<open>z \<times> x\<close>, \<open>z\<close> (with the fourth row
  and column of the identity); the squared length of a vector; and the three corners of the
  equatorial face that \<^verbatim>\<open>build_face_transforms\<close> computes.
\<close>

definition unit3 :: "GUT_VECTOR \<Rightarrow> bool" where
  "unit3 v \<longleftrightarrow> vi v * vi v + vj v * vj v + vk v * vk v = 1"

definition is_frame :: "matrix \<Rightarrow> bool" where
  "is_frame m \<longleftrightarrow> (\<exists>x1 x2 x3 z1 z2 z3.
      x1 * x1 + x2 * x2 + x3 * x3 = 1 \<and> z1 * z1 + z2 * z2 + z3 * z3 = 1
    \<and> x1 * z1 + x2 * z2 + x3 * z3 = 0
    \<and> m = [x1, z2 * x3 - z3 * x2, z1, 0,
           x2, z3 * x1 - z1 * x3, z2, 0,
           x3, z1 * x2 - z2 * x1, z3, 0,
           0, 0, 0, 1])"

definition vnorm2 :: "GUT_VECTOR \<Rightarrow> double" where
  "vnorm2 v = vi v * vi v + vj v * vj v + vk v * vk v"

definition face_p0 :: GUT_POINT where
  "face_p0 = \<lparr>px = sin (DTR 180 - arctan 2) * cos (DTR 36),
              py = sin (DTR 180 - arctan 2) * sin (DTR 36),
              pz = cos (DTR 180 - arctan 2), pw = 0\<rparr>"

definition face_p1 :: GUT_POINT where
  "face_p1 = \<lparr>px = sin (arctan 2), py = 0, pz = cos (arctan 2), pw = 0\<rparr>"

definition face_p2 :: GUT_POINT where
  "face_p2 = \<lparr>px = sin (DTR 180 - arctan 2) * cos (DTR 36),
              py = - (sin (DTR 180 - arctan 2) * sin (DTR 36)),
              pz = cos (DTR 180 - arctan 2), pw = 0\<rparr>"

section \<open>Matrix product\<close>

lemma upt_4: "[0..<4] = [0, 1, 2, 3]"
  by (simp add: upt_rec)

lemma less_4_cases: "i < (4::nat) \<Longrightarrow> i = 0 \<or> i = 1 \<or> i = 2 \<or> i = 3"
  by arith

text \<open>Fifteen of the sixteen entries are those of the product.\<close>

lemma mtx_multiply_matrix_other_entries:
  assumes "r < 4" "k < 4" "(r, k) \<noteq> (2, 3)"
  shows "mtx_multiply_matrix a b ! (r * 4 + k) = product_entry a b r k"
  using less_4_cases[OF assms(1)] less_4_cases[OF assms(2)] assms(3)
  by (elim disjE) (simp_all add: mtx_multiply_matrix_def product_entry_def upt_4 numeral_2_eq_2)

text \<open>
  C1. \<^verbatim>\<open>mtx_multiply_matrix\<close> is to write the row-major product. The assignment to
  \<^verbatim>\<open>c[11]\<close> (row 2, column 3) reads row 1 of \<^verbatim>\<open>a\<close> instead of row 2: for
  \<^verbatim>\<open>a\<close> the identity and \<^verbatim>\<open>b\<close> the identity with \<^verbatim>\<open>b[7] = 1\<close> the code
  writes \<^verbatim>\<open>c[11] = 1\<close>, where the product has 0.
\<close>

theorem mtx_multiply_matrix_c11_wrong:
  "mtx_multiply_matrix mtx_set_unity [1, 0, 0, 0,  0, 1, 0, 1,  0, 0, 1, 0,  0, 0, 0, 1] ! 11 = 1
   \<and> product_entry mtx_set_unity [1, 0, 0, 0,  0, 1, 0, 1,  0, 0, 1, 0,  0, 0, 0, 1] 2 3 = 0"
  by (simp add: mtx_multiply_matrix_def mtx_set_unity_def product_entry_def upt_4)

section \<open>Converter: degenerate points and the azimuth table\<close>

lemma acos_argument_in_range:
  "\<bar>pz p / sqrt (px p * px p + py p * py p + pz p * pz p)\<bar> \<le> 1"
proof -
  define r where "r = sqrt (px p * px p + py p * py p + pz p * pz p)"
  have a: "\<bar>pz p\<bar> \<le> r"
    unfolding r_def by (rule real_le_rsqrt) (simp add: power2_eq_square)
  then have "0 \<le> r" by simp
  with a have "\<bar>pz p / r\<bar> \<le> 1"
    by (cases "r = 0") (auto simp: abs_divide divide_le_eq)
  then show ?thesis by (simp add: r_def)
qed

text \<open>
  C9: for every point whose radius \<open>sqrt (x\<^sup>2 + y\<^sup>2 + z\<^sup>2)\<close> is at most the epsilon
  \<open>1e-14\<close>, \<^verbatim>\<open>gut_cartesian_to_spherical\<close> returns early: the inclination and the azimuth
  of the output keep their prior values (the radius has been written). Nothing fails.
\<close>

theorem cartesian_to_spherical_degenerate:
  assumes "sqrt (px p * px p + py p * py p + pz p * pz p) \<le> ZERO"
  shows "inclination (gut_cartesian_to_spherical p s) = inclination s
       \<and> azimuth (gut_cartesian_to_spherical p s) = azimuth s
       \<and> radius (gut_cartesian_to_spherical p s) = sqrt (px p * px p + py p * py p + pz p * pz p)"
proof -
  have "0 \<le> sqrt (px p * px p + py p * py p + pz p * pz p)" by simp
  then have "\<not> \<bar>sqrt (px p * px p + py p * py p + pz p * pz p)\<bar> > ZERO"
    using assms by simp
  then show ?thesis
    by (simp add: gut_cartesian_to_spherical_def Let_def)
qed

text \<open>C9, witness: the origin, with an output that held (1, 2, 3) before the call.\<close>

theorem cartesian_to_spherical_degenerate_witness:
  "sqrt (0 * 0 + 0 * 0 + 0 * 0) \<le> ZERO
   \<and> inclination (gut_cartesian_to_spherical \<lparr>px = 0, py = 0, pz = 0, pw = 1\<rparr>
        \<lparr>radius = 1, azimuth = 2, inclination = 3\<rparr>) = 3
   \<and> azimuth (gut_cartesian_to_spherical \<lparr>px = 0, py = 0, pz = 0, pw = 1\<rparr>
        \<lparr>radius = 1, azimuth = 2, inclination = 3\<rparr>) = 2"
  using cartesian_to_spherical_degenerate[of "\<lparr>px = 0, py = 0, pz = 0, pw = 1\<rparr>"
      "\<lparr>radius = 1, azimuth = 2, inclination = 3\<rparr>"]
  by (simp add: ZERO_def)

text \<open>
  C5, as stated, fails: the table row "\<open>x > 0\<close> gives \<open>atan(y/x)\<close>" does not hold when
  \<open>y\<close> is within the epsilon but not zero. At \<open>(2e-14, 1e-14, 1)\<close> the radius exceeds the
  epsilon and \<open>x\<close> exceeds it too; the code sets the azimuth to 0, and \<open>atan(y/x) = atan(1/2)\<close>
  is not 0.
\<close>

theorem azimuth_positive_x_small_y:
  "sqrt (0.00000000000002 * 0.00000000000002 + 0.00000000000001 * 0.00000000000001 + 1 * 1) > ZERO
   \<and> 0.00000000000002 > ZERO
   \<and> azimuth (gut_cartesian_to_spherical
        \<lparr>px = 0.00000000000002, py = 0.00000000000001, pz = 1, pw = 1\<rparr>
        \<lparr>radius = 0, azimuth = 0, inclination = 0\<rparr>)
       \<noteq> arctan (0.00000000000001 / 0.00000000000002)"
proof -
  have r: "sqrt (0.00000000000002 * 0.00000000000002 + 0.00000000000001 * 0.00000000000001 + 1 * 1) > ZERO"
    unfolding ZERO_def by (rule real_less_rsqrt) (simp add: power2_eq_square)
  then show ?thesis
    by (simp add: gut_cartesian_to_spherical_def Let_def) (simp add: ZERO_def)
qed

text \<open>
  C5, amended: for every point whose radius exceeds the epsilon \<open>1e-14\<close> the azimuth is
  set by the table of the source, where \<open>\<approx> 0\<close> is a magnitude of at most \<open>1e-14\<close>,
  \<open>> 0\<close> is above \<open>1e-14\<close> and \<open>< 0\<close> is below \<open>-1e-14\<close>:
  \<open>x \<approx> 0, y \<approx> 0\<close> gives 0; \<open>x \<approx> 0, y > 0\<close> gives \<open>DTR 90\<close>; \<open>x \<approx> 0, y < 0\<close> gives
  \<open>DTR (-90)\<close>; \<open>x > 0, y \<approx> 0\<close> gives 0; \<open>x > 0\<close> and \<open>y\<close> not \<open>\<approx> 0\<close> gives \<open>atan(y/x)\<close>;
  \<open>x < 0, y \<approx> 0\<close> gives \<open>DTR 180\<close>; \<open>x < 0, y > 0\<close> gives \<open>DTR 180 + atan(y/x)\<close>;
  \<open>x < 0, y < 0\<close> gives \<open>DTR (-180) + atan(y/x)\<close>.
\<close>

theorem azimuth_quadrant_table:
  assumes "sqrt (px p * px p + py p * py p + pz p * pz p) > ZERO"
  shows "(\<bar>px p\<bar> \<le> ZERO \<and> \<bar>py p\<bar> \<le> ZERO \<longrightarrow> azimuth (gut_cartesian_to_spherical p s) = 0)
       \<and> (\<bar>px p\<bar> \<le> ZERO \<and> py p > ZERO \<longrightarrow> azimuth (gut_cartesian_to_spherical p s) = DTR 90)
       \<and> (\<bar>px p\<bar> \<le> ZERO \<and> py p < - ZERO \<longrightarrow> azimuth (gut_cartesian_to_spherical p s) = DTR (- 90))
       \<and> (px p > ZERO \<and> \<bar>py p\<bar> \<le> ZERO \<longrightarrow> azimuth (gut_cartesian_to_spherical p s) = 0)
       \<and> (px p > ZERO \<and> \<bar>py p\<bar> > ZERO \<longrightarrow> azimuth (gut_cartesian_to_spherical p s) = arctan (py p / px p))
       \<and> (px p < - ZERO \<and> \<bar>py p\<bar> \<le> ZERO \<longrightarrow> azimuth (gut_cartesian_to_spherical p s) = DTR 180)
       \<and> (px p < - ZERO \<and> py p > ZERO \<longrightarrow>
            azimuth (gut_cartesian_to_spherical p s) = DTR 180 + arctan (py p / px p))
       \<and> (px p < - ZERO \<and> py p < - ZERO \<longrightarrow>
            azimuth (gut_cartesian_to_spherical p s) = DTR (- 180) + arctan (py p / px p))"
proof -
  have z: "0 < ZERO" by (simp add: ZERO_def)
  have "\<bar>sqrt (px p * px p + py p * py p + pz p * pz p)\<bar> > ZERO"
    using assms by simp
  then show ?thesis
    using z by (auto simp add: gut_cartesian_to_spherical_def Let_def)
qed

text \<open>C5, witness: the point \<open>(-1, 1, 0)\<close> falls in the row \<open>x < 0, y > 0\<close>.\<close>

theorem azimuth_quadrant_table_witness:
  "sqrt ((- 1) * (- 1) + 1 * 1 + 0 * 0) > ZERO \<and> - 1 < - ZERO \<and> 1 > ZERO
   \<and> azimuth (gut_cartesian_to_spherical \<lparr>px = - 1, py = 1, pz = 0, pw = 1\<rparr>
        \<lparr>radius = 0, azimuth = 0, inclination = 0\<rparr>) = DTR 180 + arctan (1 / (- 1))"
proof -
  have r: "sqrt ((- 1) * (- 1) + 1 * 1 + 0 * 0) > ZERO"
    unfolding ZERO_def by (rule real_less_rsqrt) (simp add: power2_eq_square)
  show ?thesis
    using r azimuth_quadrant_table[of "\<lparr>px = - 1, py = 1, pz = 0, pw = 1\<rparr>"
        "\<lparr>radius = 0, azimuth = 0, inclination = 0\<rparr>"]
    by (simp add: ZERO_def)
qed


section \<open>Triangle solver: the arguments of the arcsine\<close>

lemma pi_ge_3: "3 \<le> pi"
proof -
  have "sin (pi / 6) \<le> pi / 6" by (rule sin_x_le_x) simp
  then show ?thesis by (simp add: sin_30)
qed

lemma bind_fp_simps [simp]:
  "bind_fp (Inl e) f = Inl e" "bind_fp (Inr v) f = f v"
  by (simp_all add: bind_fp_def)

text \<open>The unambiguous case calls \<^verbatim>\<open>asin_clamp\<close>, which never leaves the domain.\<close>

lemma asin_clamp_clamps:
  "asin_clamp x = Inr (arcsin (max (- 1) (min 1 x)))"
  by (simp add: asin_clamp_def c_asin_def Let_def max_def min_def)

lemma sin_one_sq: "1 / 2 < sin 1 * sin (1::real)"
proof -
  have "sin (pi / 4) < sin (1::real)"
    using pi_less_4 pi_ge_two by (subst sin_mono_less_eq) simp_all
  then have a: "sqrt 2 / 2 < sin (1::real)" by (simp add: sin_45)
  have "(sqrt 2 / 2)\<^sup>2 < (sin (1::real))\<^sup>2"
    using a by (intro power_strict_mono) simp_all
  then show ?thesis by (simp add: power2_eq_square)
qed

lemma asin_argument_exceeds_one: "1 < sin 1 * sin 1 / sin (1 / 2 :: real)"
proof -
  have p: "0 < sin (1 / 2 :: real)"
    using pi_ge_two by (intro sin_gt_zero) simp_all
  have "sin (1 / 2 :: real) \<le> 1 / 2" by (rule sin_x_le_x) simp
  then have "sin (1 / 2 :: real) < sin 1 * sin 1" using sin_one_sq by simp
  then show ?thesis using p by simp
qed

text \<open>
  C4: no arcsine in \<^verbatim>\<open>sph_tri_bcC\<close> is to receive an argument outside \<open>[-1, 1]\<close>. The
  complex case calls \<^verbatim>\<open>asin\<close> without the clamp. For \<open>b = 1\<close>, \<open>c = 1/2\<close>, \<open>C = 1\<close>
  (radians; \<open>b > c\<close> and \<open>C < DTR 90\<close>) its first call receives
  \<open>sin C * sin b / sin c > 1\<close>: a domain error.
\<close>

theorem sph_tri_bcC_asin_unclamped:
  "(1::real) > 1 / 2 \<and> 1 < DTR 90 \<and> 1 < sin 1 * sin 1 / sin (1 / 2 :: real)
   \<and> sph_tri_bcC \<lparr>tri_a = 0, tri_b = 1, tri_c = 1 / 2, tri_A = 0, tri_B = 0, tri_C = 1\<rparr>
       = Inl AsinDomain"
proof -
  have p: "sin (1 / 2 :: real) \<noteq> 0"
    using pi_ge_two sin_gt_zero[of "1 / 2"] by simp
  have d: "(1::real) < DTR 90" by (simp add: DTR_def)
  show ?thesis
    using asin_argument_exceeds_one p d
    by (simp add: sph_tri_bcC_def sph_tri_bcC_candidates_def c_div_def c_asin_def)
qed

section \<open>Triangle solver: the complex case\<close>

lemma c_asin_in_range: "- 1 \<le> x \<Longrightarrow> x \<le> 1 \<Longrightarrow> c_asin x = Inr (arcsin x)"
  unfolding c_asin_def by (simp only: not_less[symmetric] simp_thms if_False)

lemma c_div_nonzero: "y \<noteq> 0 \<Longrightarrow> c_div x y = Inr (x / y)"
  by (simp add: c_div_def)

lemma c_tan_no_pole: "cos x \<noteq> 0 \<Longrightarrow> c_tan x = Inr (tan x)"
  by (simp add: c_tan_def)

lemma candidates_defined:
  assumes q: "sin c \<noteq> 0" "- 1 \<le> sin C * sin b / sin c" "sin C * sin b / sin c \<le> 1"
    and t: "cos ((C - spec_B b c C) / 2) \<noteq> 0" "cos ((C - (DTR 180 - spec_B b c C)) / 2) \<noteq> 0"
    and s: "sin ((c - b) / 2) \<noteq> 0"
    and v: "tan ((C - spec_B b c C) / 2) * sin ((c + b) / 2) / sin ((c - b) / 2) \<noteq> 0"
       "tan ((C - (DTR 180 - spec_B b c C)) / 2) * sin ((c + b) / 2) / sin ((c - b) / 2) \<noteq> 0"
  shows "sph_tri_bcC_candidates b c C =
     Inr \<lparr>cand_A = spec_A b c C (spec_B b c C), cand_B = spec_B b c C,
          cand_A2 = spec_A b c C (DTR 180 - spec_B b c C), cand_B2 = DTR 180 - spec_B b c C\<rparr>"
proof -
  have B: "c_asin (sin C * sin b / sin c) = Inr (spec_B b c C)"
    unfolding spec_B_def using q(2,3) by (rule c_asin_in_range)
  show ?thesis
    unfolding sph_tri_bcC_candidates_def
    by (simp only: c_div_nonzero[OF q(1)] bind_fp_simps B Let_def c_tan_no_pole[OF t(1)]
        c_tan_no_pole[OF t(2)] c_div_nonzero[OF s] c_div_nonzero[OF v(1)] c_div_nonzero[OF v(2)]
        spec_A_def mult.commute[of _ "2::real"])
qed

lemma candidates_result:
  assumes "sph_tri_bcC_candidates b c C = Inr cs"
  shows "cs = \<lparr>cand_A = spec_A b c C (spec_B b c C), cand_B = spec_B b c C,
          cand_A2 = spec_A b c C (DTR 180 - spec_B b c C), cand_B2 = DTR 180 - spec_B b c C\<rparr>"
  using assms
  by (auto simp add: sph_tri_bcC_candidates_def c_div_def c_asin_def c_tan_def Let_def
      spec_A_def spec_B_def bind_fp_def mult.commute split: if_splits sum.splits)

lemma pi_bounds: "3 \<le> pi" "pi < 4"
  using pi_ge_3 pi_less_4 by simp_all

lemma sqrt3_less: "sqrt 3 < 19 / 10"
  by (rule real_less_lsqrt) (simp_all add: power2_eq_square)

text \<open>The sines of the example \<open>b = 50\<degree>, c = 40\<degree>, C = 30\<degree>\<close>.\<close>

lemma example_sines:
  "0 < sin (DTR 30)" "sin (DTR 30) \<le> 5236 / 10000"
  "1 / 2 \<le> sin (DTR 40)" "sin (DTR 40) < sin (DTR 50)" "sin (DTR 50) \<le> sqrt 3 / 2"
proof -
  show "0 < sin (DTR 30)"
    using pi_bounds by (intro sin_gt_zero) (simp_all add: DTR_def)
  have "sin (DTR 30) \<le> DTR 30" by (rule sin_x_le_x) (simp add: DTR_def)
  then show "sin (DTR 30) \<le> 5236 / 10000" by (simp add: DTR_def)
  have "sin (pi / 6) \<le> sin (DTR 40)"
    using pi_bounds by (subst sin_mono_le_eq) (simp_all add: DTR_def)
  then show "1 / 2 \<le> sin (DTR 40)" by (simp add: sin_30)
  show "sin (DTR 40) < sin (DTR 50)"
    using pi_bounds by (subst sin_mono_less_eq) (simp_all add: DTR_def)
  have "sin (DTR 50) \<le> sin (pi / 3)"
    using pi_bounds by (subst sin_mono_le_eq) (simp_all add: DTR_def)
  then show "sin (DTR 50) \<le> sqrt 3 / 2" by (simp add: sin_60)
qed

lemma example_quotient:
  "sin (DTR 30) < sin (DTR 30) * sin (DTR 50) / sin (DTR 40)"
  "sin (DTR 30) * sin (DTR 50) / sin (DTR 40) < 1"
proof -
  have c: "0 < sin (DTR 40)" using example_sines(3) by simp
  have "sin (DTR 30) * sin (DTR 40) < sin (DTR 30) * sin (DTR 50)"
    using example_sines(1,4) by simp
  then show "sin (DTR 30) < sin (DTR 30) * sin (DTR 50) / sin (DTR 40)"
    using c by (simp add: field_simps)
  have "sin (DTR 30) * sin (DTR 50) \<le> (5236 / 10000) * (sqrt 3 / 2)"
    using example_sines by (intro mult_mono) simp_all
  also have "\<dots> < (5236 / 10000) * ((19 / 10) / 2)"
    using sqrt3_less by simp
  also have "\<dots> < 1 / 2" by simp
  finally have "sin (DTR 30) * sin (DTR 50) < sin (DTR 40)"
    using example_sines(3) by simp
  then show "sin (DTR 30) * sin (DTR 50) / sin (DTR 40) < 1"
    using c by (simp add: field_simps)
qed

lemma example_B:
  "DTR 30 < spec_B (DTR 50) (DTR 40) (DTR 30)" "spec_B (DTR 50) (DTR 40) (DTR 30) < pi / 2"
proof -
  let ?q = "sin (DTR 30) * sin (DTR 50) / sin (DTR 40)"
  have "arcsin (sin (DTR 30)) < arcsin ?q"
    using example_quotient example_sines(1) by (intro arcsin_less_arcsin) simp_all
  moreover have "arcsin (sin (DTR 30)) = DTR 30"
    using pi_bounds by (intro arcsin_sin) (simp_all add: DTR_def)
  ultimately show "DTR 30 < spec_B (DTR 50) (DTR 40) (DTR 30)"
    by (simp add: spec_B_def)
  have "- 1 < ?q" using example_quotient(1) example_sines(1) by simp
  then show "spec_B (DTR 50) (DTR 40) (DTR 30) < pi / 2"
    unfolding spec_B_def using example_quotient(2) arcsin_lt_bounded[of ?q] by simp
qed

lemma tan_negative: "- (pi / 2) < x \<Longrightarrow> x < 0 \<Longrightarrow> tan x < 0 \<and> cos x \<noteq> 0"
  using tan_less_zero[of x] cos_gt_zero_pi[of x] by simp

lemma example_half_sines:
  "0 < sin ((DTR 40 + DTR 50) / 2)" "sin ((DTR 40 - DTR 50) / 2) < 0"
proof -
  show "0 < sin ((DTR 40 + DTR 50) / 2)"
    using pi_bounds by (intro sin_gt_zero) (simp_all add: DTR_def)
  have "0 < sin ((DTR 50 - DTR 40) / 2)"
    using pi_bounds by (intro sin_gt_zero) (simp_all add: DTR_def)
  moreover have "(DTR 40 - DTR 50) / 2 = - ((DTR 50 - DTR 40) / 2)"
    by (simp add: DTR_def)
  then have "sin ((DTR 40 - DTR 50) / 2) = - sin ((DTR 50 - DTR 40) / 2)"
    by (simp only: sin_minus)
  ultimately show "sin ((DTR 40 - DTR 50) / 2) < 0" by simp
qed

lemma example_tangents:
  "tan ((DTR 30 - spec_B (DTR 50) (DTR 40) (DTR 30)) / 2) < 0"
  "cos ((DTR 30 - spec_B (DTR 50) (DTR 40) (DTR 30)) / 2) \<noteq> 0"
  "tan ((DTR 30 - (DTR 180 - spec_B (DTR 50) (DTR 40) (DTR 30))) / 2) < 0"
  "cos ((DTR 30 - (DTR 180 - spec_B (DTR 50) (DTR 40) (DTR 30))) / 2) \<noteq> 0"
proof -
  let ?B = "spec_B (DTR 50) (DTR 40) (DTR 30)"
  have 1: "- (pi / 2) < (DTR 30 - ?B) / 2" "(DTR 30 - ?B) / 2 < 0"
    using example_B pi_bounds by (simp_all add: DTR_def)
  have 2: "- (pi / 2) < (DTR 30 - (DTR 180 - ?B)) / 2" "(DTR 30 - (DTR 180 - ?B)) / 2 < 0"
    using example_B pi_bounds by (simp_all add: DTR_def)
  show "tan ((DTR 30 - ?B) / 2) < 0" "cos ((DTR 30 - ?B) / 2) \<noteq> 0"
    using tan_negative[OF 1] by simp_all
  show "tan ((DTR 30 - (DTR 180 - ?B)) / 2) < 0" "cos ((DTR 30 - (DTR 180 - ?B)) / 2) \<noteq> 0"
    using tan_negative[OF 2] by simp_all
qed

lemma napier_positive:
  assumes "t < 0" "0 < s1" "s2 < (0::real)"
  shows "0 < t * s1 / s2" "0 < 2 * arctan (1 / (t * s1 / s2))" "t * s1 / s2 \<noteq> 0"
proof -
  have "t * s1 < 0" using assms(1,2) by (simp add: mult_neg_pos)
  then show v: "0 < t * s1 / s2" using assms(3) by (simp add: divide_neg_neg)
  then have "0 < 1 / (t * s1 / s2)" by (simp only: zero_less_divide_1_iff)
  then have "0 < arctan (1 / (t * s1 / s2))" by (simp only: zero_less_arctan_iff)
  then show "0 < 2 * arctan (1 / (t * s1 / s2))" by simp
  show "t * s1 / s2 \<noteq> 0" using v by (rule less_imp_neq[THEN not_sym])
qed

lemma example_candidates:
  "sph_tri_bcC_candidates (DTR 50) (DTR 40) (DTR 30) =
     Inr \<lparr>cand_A = spec_A (DTR 50) (DTR 40) (DTR 30) (spec_B (DTR 50) (DTR 40) (DTR 30)),
          cand_B = spec_B (DTR 50) (DTR 40) (DTR 30),
          cand_A2 = spec_A (DTR 50) (DTR 40) (DTR 30) (DTR 180 - spec_B (DTR 50) (DTR 40) (DTR 30)),
          cand_B2 = DTR 180 - spec_B (DTR 50) (DTR 40) (DTR 30)\<rparr>"
proof (rule candidates_defined)
  show "sin (DTR 40) \<noteq> 0" using example_sines(3) by simp
  show "- 1 \<le> sin (DTR 30) * sin (DTR 50) / sin (DTR 40)"
    using example_quotient(1) example_sines(1) by simp
  show "sin (DTR 30) * sin (DTR 50) / sin (DTR 40) \<le> 1"
    using example_quotient(2) by simp
  show "cos ((DTR 30 - spec_B (DTR 50) (DTR 40) (DTR 30)) / 2) \<noteq> 0"
    by (rule example_tangents)
  show "cos ((DTR 30 - (DTR 180 - spec_B (DTR 50) (DTR 40) (DTR 30))) / 2) \<noteq> 0"
    by (rule example_tangents)
  show "sin ((DTR 40 - DTR 50) / 2) \<noteq> 0" using example_half_sines(2) by simp
  show "tan ((DTR 30 - spec_B (DTR 50) (DTR 40) (DTR 30)) / 2) * sin ((DTR 40 + DTR 50) / 2)
      / sin ((DTR 40 - DTR 50) / 2) \<noteq> 0"
    by (rule napier_positive(3)[OF example_tangents(1) example_half_sines])
  show "tan ((DTR 30 - (DTR 180 - spec_B (DTR 50) (DTR 40) (DTR 30))) / 2) * sin ((DTR 40 + DTR 50) / 2)
      / sin ((DTR 40 - DTR 50) / 2) \<noteq> 0"
    by (rule napier_positive(3)[OF example_tangents(3) example_half_sines])
qed

lemma example_angles:
  "0 < spec_A (DTR 50) (DTR 40) (DTR 30) (spec_B (DTR 50) (DTR 40) (DTR 30))"
  "0 < spec_A (DTR 50) (DTR 40) (DTR 30) (DTR 180 - spec_B (DTR 50) (DTR 40) (DTR 30))"
  unfolding spec_A_def
  by (rule napier_positive(2)[OF example_tangents(1) example_half_sines],
      rule napier_positive(2)[OF example_tangents(3) example_half_sines])

text \<open>
  C2, as stated, fails in its last part: for \<open>b = 50\<degree>\<close>, \<open>c = 40\<degree>\<close>, \<open>C = 30\<degree>\<close> both
  candidates are computed, the primary \<open>A\<close> is non-negative (so it is the one selected),
  and the \<open>A\<close> of the alternate, supplementary candidate is not negative.
\<close>

theorem example_alternate_angle_not_negative:
  "\<not> isl (sph_tri_bcC_candidates (DTR 50) (DTR 40) (DTR 30))
   \<and> 0 \<le> cand_A (projr (sph_tri_bcC_candidates (DTR 50) (DTR 40) (DTR 30)))
   \<and> \<not> cand_A2 (projr (sph_tri_bcC_candidates (DTR 50) (DTR 40) (DTR 30))) < 0"
  unfolding example_candidates using example_angles by simp

lemma ambiguous_case_result:
  assumes "tri_b st > tri_c st" "tri_C st < DTR 90" "sph_tri_bcC st = Inr st'"
  shows "tri_A st' = (if spec_A (tri_b st) (tri_c st) (tri_C st) (spec_B (tri_b st) (tri_c st) (tri_C st)) < 0
                      then spec_A (tri_b st) (tri_c st) (tri_C st) (DTR 180 - spec_B (tri_b st) (tri_c st) (tri_C st))
                      else spec_A (tri_b st) (tri_c st) (tri_C st) (spec_B (tri_b st) (tri_c st) (tri_C st)))"
    and "tri_B st' = (if spec_A (tri_b st) (tri_c st) (tri_C st) (spec_B (tri_b st) (tri_c st) (tri_C st)) < 0
                      then DTR 180 - spec_B (tri_b st) (tri_c st) (tri_C st)
                      else spec_B (tri_b st) (tri_c st) (tri_C st))"
    and "tri_a st' = arcsin (sin (tri_A st') * sin (tri_b st) / sin (tri_B st'))"
    and "tri_b st' = tri_b st" "tri_c st' = tri_c st" "tri_C st' = tri_C st"
proof -
  obtain cs where cs: "sph_tri_bcC_candidates (tri_b st) (tri_c st) (tri_C st) = Inr cs"
    using assms by (cases "sph_tri_bcC_candidates (tri_b st) (tri_c st) (tri_C st)")
      (simp_all add: sph_tri_bcC_def)
  note r = candidates_result[OF cs]
  define A where "A = (if cand_A cs < 0 then cand_A2 cs else cand_A cs)"
  define B where "B = (if cand_A cs < 0 then cand_B2 cs else cand_B cs)"
  have "bind_fp (c_div (sin A * sin (tri_b st)) (sin B)) (\<lambda>q.
       bind_fp (c_asin q) (\<lambda>a. Inr (st\<lparr>tri_B := B, tri_A := A, tri_a := a\<rparr>))) = Inr st'"
    using assms cs by (simp add: sph_tri_bcC_def A_def B_def split: if_splits)
  then have st': "st' = st\<lparr>tri_B := B, tri_A := A, tri_a := arcsin (sin A * sin (tri_b st) / sin B)\<rparr>"
    by (auto simp: c_div_def c_asin_def bind_fp_def split: if_splits)
  have AB: "A = (if spec_A (tri_b st) (tri_c st) (tri_C st) (spec_B (tri_b st) (tri_c st) (tri_C st)) < 0
                      then spec_A (tri_b st) (tri_c st) (tri_C st) (DTR 180 - spec_B (tri_b st) (tri_c st) (tri_C st))
                      else spec_A (tri_b st) (tri_c st) (tri_C st) (spec_B (tri_b st) (tri_c st) (tri_C st)))"
     "B = (if spec_A (tri_b st) (tri_c st) (tri_C st) (spec_B (tri_b st) (tri_c st) (tri_C st)) < 0
                      then DTR 180 - spec_B (tri_b st) (tri_c st) (tri_C st)
                      else spec_B (tri_b st) (tri_c st) (tri_C st))"
    unfolding A_def B_def by (subst r, simp)+
  show "tri_A st' = (if spec_A (tri_b st) (tri_c st) (tri_C st) (spec_B (tri_b st) (tri_c st) (tri_C st)) < 0
                      then spec_A (tri_b st) (tri_c st) (tri_C st) (DTR 180 - spec_B (tri_b st) (tri_c st) (tri_C st))
                      else spec_A (tri_b st) (tri_c st) (tri_C st) (spec_B (tri_b st) (tri_c st) (tri_C st)))"
    using AB(1) by (simp add: st')
  show "tri_B st' = (if spec_A (tri_b st) (tri_c st) (tri_C st) (spec_B (tri_b st) (tri_c st) (tri_C st)) < 0
                      then DTR 180 - spec_B (tri_b st) (tri_c st) (tri_C st)
                      else spec_B (tri_b st) (tri_c st) (tri_C st))"
    using AB(2) by (simp add: st')
  show "tri_a st' = arcsin (sin (tri_A st') * sin (tri_b st) / sin (tri_B st'))"
    by (simp add: st')
  show "tri_b st' = tri_b st" "tri_c st' = tri_c st" "tri_C st' = tri_C st"
    by (simp_all add: st')
qed

text \<open>
  C2, amended: for every input with \<open>b > c\<close> and \<open>C < DTR 90\<close> on which
  \<^verbatim>\<open>sph_tri_bcC\<close> computes a result, the result is made of the candidate
  \<open>B = arcsin (sin C * sin b / sin c)\<close> and its supplement \<open>B2 = DTR 180 - B\<close>, each with
  its angle \<open>A\<close> from the half-angle tangent relation with \<open>(C - B) / 2\<close> and
  \<open>(c \<plusminus> b) / 2\<close>; the supplementary candidate is used exactly when the primary \<open>A\<close> is
  negative; and \<open>a = arcsin (sin A * sin b / sin B)\<close>. For \<open>b = 50\<degree>\<close>, \<open>c = 40\<degree>\<close>,
  \<open>C = 30\<degree>\<close> both candidates are computed and both have a positive \<open>A\<close>, so the primary
  one is selected.
\<close>

theorem sph_tri_bcC_complex_case:
  "(tri_b st > tri_c st \<and> tri_C st < DTR 90 \<and> sph_tri_bcC st = Inr st' \<longrightarrow>
      (let b = tri_b st; c = tri_c st; C = tri_C st;
           B = spec_B b c C; B2 = DTR 180 - B;
           A = spec_A b c C B; A2 = spec_A b c C B2
       in tri_A st' = (if A < 0 then A2 else A)
          \<and> tri_B st' = (if A < 0 then B2 else B)
          \<and> tri_a st' = arcsin (sin (tri_A st') * sin b / sin (tri_B st'))
          \<and> tri_b st' = b \<and> tri_c st' = c \<and> tri_C st' = C))
   \<and> \<not> isl (sph_tri_bcC_candidates (DTR 50) (DTR 40) (DTR 30))
   \<and> 0 < cand_A (projr (sph_tri_bcC_candidates (DTR 50) (DTR 40) (DTR 30)))
   \<and> 0 < cand_A2 (projr (sph_tri_bcC_candidates (DTR 50) (DTR 40) (DTR 30)))"
proof -
  have "\<not> isl (sph_tri_bcC_candidates (DTR 50) (DTR 40) (DTR 30))
   \<and> 0 < cand_A (projr (sph_tri_bcC_candidates (DTR 50) (DTR 40) (DTR 30)))
   \<and> 0 < cand_A2 (projr (sph_tri_bcC_candidates (DTR 50) (DTR 40) (DTR 30)))"
    unfolding example_candidates using example_angles by simp
  then show ?thesis
    using ambiguous_case_result[of st st'] by (simp add: Let_def)
qed

text \<open>The isosceles input \<open>b = 50\<degree>, c = 40\<degree>, C = 40\<degree>\<close>: here \<open>B = b\<close>.\<close>

lemma isosceles_B: "spec_B (DTR 50) (DTR 40) (DTR 40) = DTR 50"
proof -
  have "sin (DTR 40) \<noteq> 0" using example_sines(3) by simp
  then have "sin (DTR 40) * sin (DTR 50) / sin (DTR 40) = sin (DTR 50)" by simp
  moreover have "arcsin (sin (DTR 50)) = DTR 50"
    using pi_bounds by (intro arcsin_sin) (simp_all add: DTR_def)
  ultimately show ?thesis by (simp only: spec_B_def)
qed

lemma isosceles_tangents:
  "tan ((DTR 40 - DTR 50) / 2) < 0" "cos ((DTR 40 - DTR 50) / 2) \<noteq> 0"
  "tan ((DTR 40 - (DTR 180 - DTR 50)) / 2) < 0" "cos ((DTR 40 - (DTR 180 - DTR 50)) / 2) \<noteq> 0"
proof -
  have 1: "- (pi / 2) < (DTR 40 - DTR 50) / 2" "(DTR 40 - DTR 50) / 2 < 0"
    using pi_bounds by (simp_all add: DTR_def)
  have 2: "- (pi / 2) < (DTR 40 - (DTR 180 - DTR 50)) / 2" "(DTR 40 - (DTR 180 - DTR 50)) / 2 < 0"
    using pi_bounds by (simp_all add: DTR_def)
  show "tan ((DTR 40 - DTR 50) / 2) < 0" "cos ((DTR 40 - DTR 50) / 2) \<noteq> 0"
    using tan_negative[OF 1] by simp_all
  show "tan ((DTR 40 - (DTR 180 - DTR 50)) / 2) < 0" "cos ((DTR 40 - (DTR 180 - DTR 50)) / 2) \<noteq> 0"
    using tan_negative[OF 2] by simp_all
qed

lemma isosceles_candidates:
  "sph_tri_bcC_candidates (DTR 50) (DTR 40) (DTR 40) =
     Inr \<lparr>cand_A = spec_A (DTR 50) (DTR 40) (DTR 40) (DTR 50), cand_B = DTR 50,
          cand_A2 = spec_A (DTR 50) (DTR 40) (DTR 40) (DTR 180 - DTR 50),
          cand_B2 = DTR 180 - DTR 50\<rparr>"
proof -
  have q: "sin (DTR 40) * sin (DTR 50) / sin (DTR 40) = sin (DTR 50)"
    using example_sines(3) by simp
  have "sph_tri_bcC_candidates (DTR 50) (DTR 40) (DTR 40) =
     Inr \<lparr>cand_A = spec_A (DTR 50) (DTR 40) (DTR 40) (spec_B (DTR 50) (DTR 40) (DTR 40)),
          cand_B = spec_B (DTR 50) (DTR 40) (DTR 40),
          cand_A2 = spec_A (DTR 50) (DTR 40) (DTR 40) (DTR 180 - spec_B (DTR 50) (DTR 40) (DTR 40)),
          cand_B2 = DTR 180 - spec_B (DTR 50) (DTR 40) (DTR 40)\<rparr>"
  proof (rule candidates_defined)
    show "sin (DTR 40) \<noteq> 0" using example_sines(3) by simp
    show "- 1 \<le> sin (DTR 40) * sin (DTR 50) / sin (DTR 40)" unfolding q by simp
    show "sin (DTR 40) * sin (DTR 50) / sin (DTR 40) \<le> 1" unfolding q by simp
    show "cos ((DTR 40 - spec_B (DTR 50) (DTR 40) (DTR 40)) / 2) \<noteq> 0"
      unfolding isosceles_B by (rule isosceles_tangents)
    show "cos ((DTR 40 - (DTR 180 - spec_B (DTR 50) (DTR 40) (DTR 40))) / 2) \<noteq> 0"
      unfolding isosceles_B by (rule isosceles_tangents)
    show "sin ((DTR 40 - DTR 50) / 2) \<noteq> 0" using example_half_sines(2) by simp
    show "tan ((DTR 40 - spec_B (DTR 50) (DTR 40) (DTR 40)) / 2) * sin ((DTR 40 + DTR 50) / 2)
        / sin ((DTR 40 - DTR 50) / 2) \<noteq> 0"
      unfolding isosceles_B
      by (rule napier_positive(3)[OF isosceles_tangents(1) example_half_sines])
    show "tan ((DTR 40 - (DTR 180 - spec_B (DTR 50) (DTR 40) (DTR 40))) / 2) * sin ((DTR 40 + DTR 50) / 2)
        / sin ((DTR 40 - DTR 50) / 2) \<noteq> 0"
      unfolding isosceles_B
      by (rule napier_positive(3)[OF isosceles_tangents(3) example_half_sines])
  qed
  then show ?thesis unfolding isosceles_B .
qed

lemma isosceles_A: "0 < spec_A (DTR 50) (DTR 40) (DTR 40) (DTR 50)"
  unfolding spec_A_def
  by (rule napier_positive(2)[OF isosceles_tangents(1) example_half_sines])

lemma isosceles_solution:
  "sph_tri_bcC \<lparr>tri_a = 0, tri_b = DTR 50, tri_c = DTR 40, tri_A = 0, tri_B = 0, tri_C = DTR 40\<rparr>
    = Inr \<lparr>tri_a = arcsin (sin (spec_A (DTR 50) (DTR 40) (DTR 40) (DTR 50))),
           tri_b = DTR 50, tri_c = DTR 40,
           tri_A = spec_A (DTR 50) (DTR 40) (DTR 40) (DTR 50), tri_B = DTR 50, tri_C = DTR 40\<rparr>"
proof -
  have s: "sin (DTR 50) \<noteq> 0" using example_sines(3,4) by simp
  have g: "DTR 50 > DTR 40 \<and> DTR 40 < DTR 90" by (simp add: DTR_def)
  have nA: "\<not> spec_A (DTR 50) (DTR 40) (DTR 40) (DTR 50) < 0" using isosceles_A by simp
  have q: "sin (spec_A (DTR 50) (DTR 40) (DTR 40) (DTR 50)) * sin (DTR 50) / sin (DTR 50)
      = sin (spec_A (DTR 50) (DTR 40) (DTR 40) (DTR 50))"
    using s by simp
  have a: "c_asin (sin (spec_A (DTR 50) (DTR 40) (DTR 40) (DTR 50)))
      = Inr (arcsin (sin (spec_A (DTR 50) (DTR 40) (DTR 40) (DTR 50))))"
    by (rule c_asin_in_range) simp_all
  show ?thesis
    unfolding sph_tri_bcC_def
    by (simp only: Let_def SPH_TRI.simps g simp_thms if_True isosceles_candidates bind_fp_simps
        candidates.simps nA if_False prod.case c_div_nonzero[OF s] q a)
qed

text \<open>
  C2, witness: \<open>b = 50\<degree>\<close>, \<open>c = 40\<degree>\<close>, \<open>C = 40\<degree>\<close> is in the complex case;
  \<^verbatim>\<open>sph_tri_bcC\<close> computes a result, with \<open>B = 50\<degree>\<close> and the \<open>A\<close> of the primary
  candidate.
\<close>

theorem sph_tri_bcC_complex_case_witness:
  "DTR 50 > DTR 40 \<and> DTR 40 < DTR 90
   \<and> \<not> isl (sph_tri_bcC \<lparr>tri_a = 0, tri_b = DTR 50, tri_c = DTR 40, tri_A = 0, tri_B = 0, tri_C = DTR 40\<rparr>)
   \<and> tri_B (projr (sph_tri_bcC
        \<lparr>tri_a = 0, tri_b = DTR 50, tri_c = DTR 40, tri_A = 0, tri_B = 0, tri_C = DTR 40\<rparr>)) = DTR 50
   \<and> tri_A (projr (sph_tri_bcC
        \<lparr>tri_a = 0, tri_b = DTR 50, tri_c = DTR 40, tri_A = 0, tri_B = 0, tri_C = DTR 40\<rparr>))
       = spec_A (DTR 50) (DTR 40) (DTR 40) (DTR 50)"
proof -
  have g: "DTR 50 > DTR 40 \<and> DTR 40 < DTR 90" by (simp add: DTR_def)
  show ?thesis
    using g isosceles_A sph_tri_bcC_complex_case[of
        "\<lparr>tri_a = 0, tri_b = DTR 50, tri_c = DTR 40, tri_A = 0, tri_B = 0, tri_C = DTR 40\<rparr>"
        "projr (sph_tri_bcC \<lparr>tri_a = 0, tri_b = DTR 50, tri_c = DTR 40, tri_A = 0, tri_B = 0, tri_C = DTR 40\<rparr>)"]
    unfolding isosceles_solution
    by (simp add: Let_def isosceles_B)
qed

section \<open>Constraint solver: the loop in general\<close>

lemma build_loop_update_tolerance:
  "build_loop_update prob seed diff = (seed', prob') \<Longrightarrow> tolerance prob' = tolerance prob"
  by (auto simp add: build_loop_update_def Let_def split: if_splits)

lemma unat_loop_Suc:
  fixes w :: "32 word"
  assumes "unat w < 200"
  shows "unat (w + 1) = Suc (unat w)"
  using assms by (simp add: unat_word_ariths)

lemma loop_is_max:
  fixes w :: "32 word"
  shows "w = max_loop \<longleftrightarrow> unat w = 200"
  by (simp add: max_loop_def word_unat_eq_iff)

lemma run_ok_step:
  assumes "run_ok tol (tr @ [d]) r" "\<not> \<bar>d\<bar> \<le> tol"
  shows "run_ok tol tr r"
proof -
  from assms(1) obtain ds where ds: "calls r = (tr @ [d]) @ ds" "ds \<noteq> []"
      "length ((tr @ [d]) @ ds) \<le> 200"
      "\<forall>d \<in> set (butlast ds). \<not> \<bar>d\<bar> \<le> tol"
      "length ((tr @ [d]) @ ds) < 200 \<longrightarrow> \<bar>last ds\<bar> \<le> tol \<and> ret r = \<bar>last ds\<bar> \<and> printed r = []"
      "length ((tr @ [d]) @ ds) = 200 \<longrightarrow> ret r = - 1 \<and> printed r = [last ds]"
    unfolding run_ok_def by blast
  show ?thesis
    unfolding run_ok_def
    using ds assms(2) by (intro exI[of _ "d # ds"]) auto
qed

lemma build_loop_while_spec:
  assumes "unat (loop prob) = length tr" "length tr < 200"
  shows "run_ok (tolerance prob) tr (build_loop_while f prob seed var tr)"
  using assms
proof (induction "199 - length tr" arbitrary: prob seed var tr)
  case 0
  then have len: "Suc (length tr) = 200" by simp
  obtain diff seed1 var1 where f: "f seed var = (diff, seed1, var1)"
    by (cases "f seed var") auto
  have "unat (loop prob + 1) = 200"
    using 0 len unat_loop_Suc[of "loop prob"] by simp
  then have "loop prob + 1 = max_loop" by (simp add: loop_is_max)
  then have "build_loop_while f prob seed var tr =
        \<lparr>ret = - 1, seed_out = seed1, var_out = var1, calls = tr @ [diff], printed = [diff]\<rparr>"
    using f by (subst build_loop_while.simps) simp
  then show ?case using len unfolding run_ok_def by (intro exI[of _ "[diff]"]) simp
next
  case (Suc k)
  then have len: "Suc (length tr) < 200" by simp
  obtain diff seed1 var1 where f: "f seed var = (diff, seed1, var1)"
    by (cases "f seed var") auto
  define prob1 where "prob1 = prob\<lparr>loop := loop prob + 1\<rparr>"
  have u1: "unat (loop prob1) = Suc (length tr)"
    using Suc.prems unat_loop_Suc[of "loop prob"] by (simp add: prob1_def)
  then have nmax: "loop prob + 1 \<noteq> max_loop" using len by (simp add: loop_is_max prob1_def)
  show ?case
  proof (cases "\<bar>diff\<bar> \<le> tolerance prob")
    case True
    have "build_loop_while f prob seed var tr =
        \<lparr>ret = \<bar>diff\<bar>, seed_out = seed1, var_out = var1, calls = tr @ [diff], printed = []\<rparr>"
      using True nmax f by (subst build_loop_while.simps) simp
    then show ?thesis using len True unfolding run_ok_def by (intro exI[of _ "[diff]"]) simp
  next
    case False
    obtain seed2 prob2 where u: "build_loop_update prob1 seed1 diff = (seed2, prob2)"
      by (cases "build_loop_update prob1 seed1 diff") auto
    have unf: "build_loop_while f prob seed var tr = build_loop_while f prob2 seed2 var1 (tr @ [diff])"
      using False nmax f u by (subst build_loop_while.simps) (simp add: prob1_def)
    have l2: "loop prob2 = loop prob1" and t2: "tolerance prob2 = tolerance prob"
      using build_loop_update_loop[OF u] build_loop_update_tolerance[OF u] by (simp_all add: prob1_def)
    have "run_ok (tolerance prob2) (tr @ [diff]) (build_loop_while f prob2 seed2 var1 (tr @ [diff]))"
      using Suc.hyps(2) len u1 l2 by (intro Suc.hyps(1)) simp_all
    then show ?thesis
      unfolding unf t2 using False by (rule run_ok_step)
  qed
qed


lemma of_nat_not_max:
  assumes "k < 200"
  shows "(of_nat k :: 32 word) \<noteq> max_loop"
proof -
  have "unat (of_nat k :: 32 word) = k"
    using assms by (simp add: unat_of_nat)
  then show ?thesis using assms by (auto simp: loop_is_max)
qed

lemma linear_step:
  assumes "0 < d" "0 \<le> tol" "l = 0 \<or> l < s - c" "l \<le> 0" "s - c < - tol" "Suc m < 200"
  shows "build_loop_while (residual_minus c)
            \<lparr>delta = d, tolerance = tol, loop = of_nat m, lastdiff = l, dir = dr\<rparr> s v tr
       = build_loop_while (residual_minus c)
            \<lparr>delta = d, tolerance = tol, loop = of_nat (Suc m), lastdiff = s - c, dir = dr\<rparr>
            (s + d) v (tr @ [s - c])"
proof -
  have nmax: "(1 + of_nat m :: 32 word) \<noteq> max_loop"
    using of_nat_not_max[OF assms(6)] by simp
  have nt: "\<not> \<bar>s - c\<bar> \<le> tol" using assms(2,5) by simp
  have upd: "build_loop_update \<lparr>delta = d, tolerance = tol, loop = 1 + of_nat m, lastdiff = l, dir = dr\<rparr> s (s - c)
      = (s + d, \<lparr>delta = d, tolerance = tol, loop = 1 + of_nat m, lastdiff = s - c, dir = dr\<rparr>)"
    using assms(1-5) by (auto simp: build_loop_update_def)
  show ?thesis
    using nmax nt upd
    by (subst build_loop_while.simps) (simp add: residual_minus_def add.commute)
qed

lemma linear_phase:
  assumes "0 < d" "0 \<le> tol" "l = 0 \<or> l < s - c" "l \<le> 0"
    and "s + real n * d - c < d - tol" "m + n < 200"
  shows "build_loop_while (residual_minus c)
            \<lparr>delta = d, tolerance = tol, loop = of_nat m, lastdiff = l, dir = dr\<rparr> s v tr
       = build_loop_while (residual_minus c)
            \<lparr>delta = d, tolerance = tol, loop = of_nat (m + n),
              lastdiff = (if n = 0 then l else s + real n * d - d - c), dir = dr\<rparr>
            (s + real n * d) v (tr @ map (\<lambda>i. s + real i * d - c) [0..<n])"
  using assms(5,6)
proof (induction n)
  case 0
  then show ?case by simp
next
  case (Suc n)
  have lt: "s + real n * d - c < - tol" using Suc.prems(1) by (simp add: algebra_simps)
  then have "s + real n * d - c < d - tol" using assms(1) by simp
  then have IH: "build_loop_while (residual_minus c)
            \<lparr>delta = d, tolerance = tol, loop = of_nat m, lastdiff = l, dir = dr\<rparr> s v tr
       = build_loop_while (residual_minus c)
            \<lparr>delta = d, tolerance = tol, loop = of_nat (m + n),
              lastdiff = (if n = 0 then l else s + real n * d - d - c), dir = dr\<rparr>
            (s + real n * d) v (tr @ map (\<lambda>i. s + real i * d - c) [0..<n])"
    using Suc.prems(2) by (intro Suc.IH) simp_all
  let ?l = "if n = 0 then l else s + real n * d - d - c"
  have l1: "?l = 0 \<or> ?l < s + real n * d - c" using assms(1,3) by auto
  have l2: "?l \<le> 0" using assms(1,2,4) lt by auto
  have "Suc (m + n) < 200" using Suc.prems(2) by simp
  from linear_step[OF assms(1,2) l1 l2 lt this, of dr v "tr @ map (\<lambda>i. s + real i * d - c) [0..<n]"]
  show ?case unfolding IH by (simp add: algebra_simps)
qed


section \<open>Constraint solver: three runs\<close>

lemma inc_value: "inc = 0.008726646259971647884618453842445"
  by (simp add: inc_def DTR_def)

lemma upt_199_length: "length (map f [0..<n]) = n"
  by simp

text \<open>The residual \<open>x - 199 * inc\<close>, seed 0: 199 calls below the root, the 200th on it.\<close>

lemma cap_run:
  "build_loop (residual_minus (199 * inc)) 0 0.00000000001 () =
     \<lparr>ret = - 1, seed_out = 199 * inc, var_out = (),
      calls = map (\<lambda>i. real i * inc - 199 * inc) [0..<199] @ [0], printed = [0]\<rparr>"
proof -
  have d: "0 < inc" by (simp add: inc_value)
  have lin: "build_loop_while (residual_minus (199 * inc))
            \<lparr>delta = inc, tolerance = 0.00000000001, loop = of_nat 0, lastdiff = 0, dir = 1\<rparr> 0 () []
       = build_loop_while (residual_minus (199 * inc))
            \<lparr>delta = inc, tolerance = 0.00000000001, loop = of_nat (0 + 199),
              lastdiff = (if (199::nat) = 0 then 0 else 0 + real 199 * inc - inc - 199 * inc), dir = 1\<rparr>
            (0 + real 199 * inc) () ([] @ map (\<lambda>i. 0 + real i * inc - 199 * inc) [0..<199])"
    by (rule linear_phase) (simp_all add: inc_value)
  have last: "build_loop_while (residual_minus (199 * inc))
            \<lparr>delta = inc, tolerance = 0.00000000001, loop = 199, lastdiff = l, dir = 1\<rparr>
            (199 * inc) () tr
       = \<lparr>ret = - 1, seed_out = 199 * inc, var_out = (), calls = tr @ [0], printed = [0]\<rparr>" for l tr
    by (subst build_loop_while.simps) (simp add: residual_minus_def max_loop_def)
  have "build_loop_while (residual_minus (199 * inc))
            \<lparr>delta = inc, tolerance = 0.00000000001, loop = 0, lastdiff = 0, dir = 1\<rparr> 0 () []
       = build_loop_while (residual_minus (199 * inc))
            \<lparr>delta = inc, tolerance = 0.00000000001, loop = 199, lastdiff = - inc, dir = 1\<rparr>
            (199 * inc) () (map (\<lambda>i. real i * inc - 199 * inc) [0..<199])"
    using lin by simp
  then show ?thesis
    unfolding build_loop_def by (simp only: last)
qed

text \<open>The residual \<open>x - 1.2345\<close>, seed 0: 142 calls below the root in steps of \<open>inc\<close>,
  then 56 calls that halve the step around it.\<close>

lemma bisect_phase:
  "run_is (build_loop_while (residual_minus 1.2345)
      \<lparr>delta = 0.008726646259971647884618453842445, tolerance = 0.00000000001, loop = 142,
        lastdiff = 141 * 0.008726646259971647884618453842445 - 1.2345, dir = 1\<rparr>
      (142 * 0.008726646259971647884618453842445) () tr)
    (292818623868163023791408763247 / 42949672960000000000000000000000000000000)
    (53021371268827181376131836976208591236753 / 42949672960000000000000000000000000000000)
    (length tr + 56) []"
  by (simp add: build_loop_while.simps residual_minus_def Let_def max_loop_def
      build_loop_update_def run_is_def)

lemma synthetic_run:
  "run_is (build_loop (residual_minus 1.2345) 0 0.00000000001 ())
    (292818623868163023791408763247 / 42949672960000000000000000000000000000000)
    (53021371268827181376131836976208591236753 / 42949672960000000000000000000000000000000)
    198 []"
proof -
  let ?d = "0.008726646259971647884618453842445 :: real"
  have lin: "build_loop_while (residual_minus 1.2345)
            \<lparr>delta = ?d, tolerance = 0.00000000001, loop = of_nat 0, lastdiff = 0, dir = 1\<rparr> 0 () []
       = build_loop_while (residual_minus 1.2345)
            \<lparr>delta = ?d, tolerance = 0.00000000001, loop = of_nat (0 + 142),
              lastdiff = (if (142::nat) = 0 then 0 else 0 + real 142 * ?d - ?d - 1.2345), dir = 1\<rparr>
            (0 + real 142 * ?d) () ([] @ map (\<lambda>i. 0 + real i * ?d - 1.2345) [0..<142])"
    by (rule linear_phase) simp_all
  have eq: "build_loop_while (residual_minus 1.2345)
            \<lparr>delta = ?d, tolerance = 0.00000000001, loop = 0, lastdiff = 0, dir = 1\<rparr> 0 () []
       = build_loop_while (residual_minus 1.2345)
            \<lparr>delta = ?d, tolerance = 0.00000000001, loop = 142,
              lastdiff = 141 * ?d - 1.2345, dir = 1\<rparr>
            (142 * ?d) () (map (\<lambda>i. real i * ?d - 1.2345) [0..<142])"
    using lin by simp
  have "run_is (build_loop_while (residual_minus 1.2345)
            \<lparr>delta = ?d, tolerance = 0.00000000001, loop = 0, lastdiff = 0, dir = 1\<rparr> 0 () [])
    (292818623868163023791408763247 / 42949672960000000000000000000000000000000)
    (53021371268827181376131836976208591236753 / 42949672960000000000000000000000000000000)
    (length (map (\<lambda>i. real i * ?d - 1.2345) [0..<142]) + 56) []"
    unfolding eq by (rule bisect_phase)
  then show ?thesis
    unfolding build_loop_def inc_value by simp
qed


lemma build_loop_run_ok: "run_ok tol [] (build_loop f seed tol var)"
  unfolding build_loop_def
  using build_loop_while_spec[of "\<lparr>delta = inc, tolerance = tol, loop = 0, lastdiff = 0, dir = 1\<rparr>" "[]" f seed var]
  by simp

lemma butlast_all_nth:
  assumes "\<forall>d \<in> set (butlast ds). P d" "i < length ds - 1"
  shows "P (ds ! i)"
proof -
  have "butlast ds ! i = ds ! i" using assms(2) by (simp add: nth_butlast)
  moreover have "butlast ds ! i \<in> set (butlast ds)" using assms(2) by simp
  ultimately show ?thesis using assms(1) by metis
qed

section \<open>Constraint solver: convergence and the iteration cap\<close>

text \<open>
  C3, as stated, fails: \<^verbatim>\<open>build_loop\<close> does not always stop with \<open>|diff|\<close> as soon as a
  residual is within the tolerance. For the residual \<open>x - 199 * inc\<close>, seed 0 and tolerance
  \<open>1e-11\<close> the 200th call returns the residual 0, which is within the tolerance, and
  \<^verbatim>\<open>build_loop\<close> returns \<open>-1\<close>, not \<open>|diff| = 0\<close>.
\<close>

theorem build_loop_within_tolerance_at_cap:
  "\<bar>last (calls (build_loop (residual_minus (199 * inc)) 0 0.00000000001 ()))\<bar> \<le> 0.00000000001
   \<and> ret (build_loop (residual_minus (199 * inc)) 0 0.00000000001 ())
       \<noteq> \<bar>last (calls (build_loop (residual_minus (199 * inc)) 0 0.00000000001 ()))\<bar>"
  unfolding cap_run by simp

text \<open>
  C3, amended: for every build function, seed, tolerance and state, \<^verbatim>\<open>build_loop\<close> makes
  between 1 and 200 calls of the build function; every call before the last returned a
  residual outside the tolerance. If it made fewer than 200 calls, the last residual is within
  the tolerance, \<^verbatim>\<open>build_loop\<close> returns its magnitude (a non-negative value) and prints
  nothing. If it made 200 calls, it prints the diagnostic with the last residual and returns
  the sentinel \<open>-1\<close>.
\<close>

theorem build_loop_returns:
  "let r = build_loop f seed tol var; n = length (calls r) in
     1 \<le> n \<and> n \<le> 200
     \<and> (\<forall>i < n - 1. \<not> \<bar>calls r ! i\<bar> \<le> tol)
     \<and> (n < 200 \<longrightarrow> \<bar>last (calls r)\<bar> \<le> tol \<and> ret r = \<bar>last (calls r)\<bar> \<and> 0 \<le> ret r
           \<and> printed r = [])
     \<and> (n = 200 \<longrightarrow> ret r = - 1 \<and> printed r = [last (calls r)])"
proof -
  obtain ds where ds: "calls (build_loop f seed tol var) = ds" "ds \<noteq> []" "length ds \<le> 200"
      "\<forall>d \<in> set (butlast ds). \<not> \<bar>d\<bar> \<le> tol"
      "length ds < 200 \<longrightarrow> \<bar>last ds\<bar> \<le> tol \<and> ret (build_loop f seed tol var) = \<bar>last ds\<bar>
          \<and> printed (build_loop f seed tol var) = []"
      "length ds = 200 \<longrightarrow> ret (build_loop f seed tol var) = - 1
          \<and> printed (build_loop f seed tol var) = [last ds]"
    using build_loop_run_ok[of tol f seed var] unfolding run_ok_def by auto
  have "1 \<le> length ds" using ds(2) by (cases ds) auto
  moreover have "\<forall>i < length ds - 1. \<not> \<bar>ds ! i\<bar> \<le> tol"
    using butlast_all_nth[OF ds(4)] by blast
  ultimately show ?thesis
    using ds by (simp add: Let_def)
qed

text \<open>
  C3, witness: with the residual \<open>x - 0\<close> and seed 0 the first call is within the tolerance;
  fewer than 200 calls are made and the magnitude of the last residual is returned.
\<close>

theorem build_loop_returns_witness:
  "length (calls (build_loop (residual_minus 0) 0 0.00000000001 ())) < 200
   \<and> ret (build_loop (residual_minus 0) 0 0.00000000001 ())
       = \<bar>last (calls (build_loop (residual_minus 0) 0 0.00000000001 ()))\<bar>
   \<and> printed (build_loop (residual_minus 0) 0 0.00000000001 ()) = []"
proof -
  have "calls (build_loop (residual_minus 0) 0 0.00000000001 ()) = [0]"
    unfolding build_loop_def
    by (subst build_loop_while.simps) (simp add: residual_minus_def max_loop_def)
  then show ?thesis
    using build_loop_returns[of "residual_minus 0" 0 "0.00000000001" "()"]
    by (simp add: Let_def)
qed

text \<open>
  C10: the test of the counter against 200 comes after the call of the build function and
  before the test of the tolerance. So when no residual of the first 199 calls is within the
  tolerance, \<^verbatim>\<open>build_loop\<close> makes the 200th call and returns \<open>-1\<close>, also when the
  residual of the 200th call is within the tolerance; and whenever it returns something
  else, it made at most 199 calls and returns the magnitude of the last residual, which is
  within the tolerance.
\<close>

theorem build_loop_cap_tested_first:
  "let r = build_loop f seed tol var in
     ((\<forall>i < length (calls r). i < 199 \<longrightarrow> \<not> \<bar>calls r ! i\<bar> \<le> tol) \<longrightarrow>
        length (calls r) = 200 \<and> ret r = - 1 \<and> printed r = [calls r ! 199])
     \<and> (length (calls r) = 200 \<and> \<bar>calls r ! 199\<bar> \<le> tol \<longrightarrow> ret r = - 1)
     \<and> (ret r \<noteq> - 1 \<longrightarrow> 1 \<le> length (calls r) \<and> length (calls r) \<le> 199
           \<and> ret r = \<bar>last (calls r)\<bar> \<and> \<bar>last (calls r)\<bar> \<le> tol)"
proof -
  obtain ds where ds: "calls (build_loop f seed tol var) = ds" "ds \<noteq> []" "length ds \<le> 200"
      "length ds < 200 \<longrightarrow> \<bar>last ds\<bar> \<le> tol \<and> ret (build_loop f seed tol var) = \<bar>last ds\<bar>"
      "length ds = 200 \<longrightarrow> ret (build_loop f seed tol var) = - 1
          \<and> printed (build_loop f seed tol var) = [last ds]"
    using build_loop_run_ok[of tol f seed var] unfolding run_ok_def by auto
  have pos: "1 \<le> length ds" using ds(2) by (cases ds) auto
  have split: "length ds < 200 \<or> length ds = 200" using ds(3) by auto
  have last: "last ds = ds ! (length ds - 1)" using ds(2) by (rule last_conv_nth)
  have first: "length ds = 200 \<and> ret (build_loop f seed tol var) = - 1
        \<and> printed (build_loop f seed tol var) = [ds ! 199]"
    if h: "\<forall>i < length ds. i < 199 \<longrightarrow> \<not> \<bar>ds ! i\<bar> \<le> tol"
  proof -
    have "\<not> length ds < 200"
    proof
      assume l: "length ds < 200"
      then have "\<bar>ds ! (length ds - 1)\<bar> \<le> tol" using ds(4) last by simp
      moreover have "length ds - 1 < length ds" "length ds - 1 < 199" using pos l by simp_all
      ultimately show False using h by blast
    qed
    then have "length ds = 200" using split by simp
    then show ?thesis using ds(5) last by simp
  qed
  show ?thesis
    unfolding Let_def ds(1)
    using first pos split ds(4,5) by auto
qed

text \<open>
  C10, witness: the residual \<open>x - 199 * inc\<close> from seed 0 is outside the tolerance on the
  first 199 calls and within it on the 200th; \<open>-1\<close> is returned.
\<close>

theorem build_loop_cap_tested_first_witness:
  "length (calls (build_loop (residual_minus (199 * inc)) 0 0.00000000001 ())) = 200
   \<and> \<not> \<bar>calls (build_loop (residual_minus (199 * inc)) 0 0.00000000001 ()) ! 198\<bar> \<le> 0.00000000001
   \<and> \<bar>calls (build_loop (residual_minus (199 * inc)) 0 0.00000000001 ()) ! 199\<bar> \<le> 0.00000000001
   \<and> ret (build_loop (residual_minus (199 * inc)) 0 0.00000000001 ()) = - 1"
proof -
  let ?r = "build_loop (residual_minus (199 * inc)) 0 0.00000000001 ()"
  have len: "length (calls ?r) = 200"
    unfolding cap_run by simp
  have last: "calls ?r ! 199 = 0"
    unfolding cap_run by (simp add: nth_append)
  have early: "\<not> \<bar>calls ?r ! i\<bar> \<le> 0.00000000001" if "i < 199" for i
  proof -
    have c: "calls ?r ! i = real i * inc - 199 * inc"
      unfolding cap_run using that by (simp add: nth_append)
    have "real i \<le> 198" using that by simp
    then have "real i * inc \<le> 198 * inc"
      by (intro mult_right_mono) (simp_all add: inc_value)
    then have "real i * inc - 199 * inc \<le> - inc" by simp
    then show ?thesis unfolding c by (simp add: inc_value)
  qed
  then have h: "\<forall>i < length (calls ?r). i < 199 \<longrightarrow> \<not> \<bar>calls ?r ! i\<bar> \<le> 0.00000000001"
    by blast
  show ?thesis
    using build_loop_cap_tested_first[of "residual_minus (199 * inc)" 0 "0.00000000001" "()"]
      h len last early[of 198]
    by (simp add: Let_def)
qed

text \<open>
  C8, as stated, fails in one point: with the residual \<open>x - 1.2345\<close>, tolerance \<open>1e-11\<close>
  and seed 0 the loop does not end well under 200 iterations. No call before the 198th
  returns a residual within the tolerance; the 199th is the last on which the loop can
  converge.
\<close>

theorem synthetic_search_uses_198_calls:
  "\<not> length (calls (build_loop (residual_minus 1.2345) 0 0.00000000001 ())) < 198"
  using synthetic_run by (simp add: run_is_def)

text \<open>
  C8, amended: with the residual \<open>x - 1.2345\<close>, tolerance \<open>1e-11\<close> and seed 0 the loop
  converges on the 198th call of the build function: it returns a non-negative residual of
  at most \<open>1e-11\<close>, the final seed is within \<open>1e-11\<close> of 1.2345, and no diagnostic is
  printed.
\<close>

theorem synthetic_search_converges:
  "length (calls (build_loop (residual_minus 1.2345) 0 0.00000000001 ())) = 198
   \<and> 0 \<le> ret (build_loop (residual_minus 1.2345) 0 0.00000000001 ())
   \<and> ret (build_loop (residual_minus 1.2345) 0 0.00000000001 ()) \<le> 0.00000000001
   \<and> \<bar>seed_out (build_loop (residual_minus 1.2345) 0 0.00000000001 ()) - 1.2345\<bar> \<le> 0.00000000001
   \<and> printed (build_loop (residual_minus 1.2345) 0 0.00000000001 ()) = []"
  using synthetic_run by (simp add: run_is_def)



section \<open>Symmetry transforms: the region table\<close>

lemma transpose_pairs:
  "concat (map (\<lambda>r. map (\<lambda>c. (r, c)) [r + 1 ..< 4]) [0 ..< 4])
    = [(0, 1), (0, 2), (0, 3), (1, 2), (1, 3), (2, 3)]"
  by (simp add: upt_rec)

lemma mtx_transpose_matrix_16:
  "mtx_transpose_matrix [a0, a1, a2, a3, a4, a5, a6, a7, a8, a9, a10, a11, a12, a13, a14, a15]
    = [a0, a4, a8, a12, a1, a5, a9, a13, a2, a6, a10, a14, a3, a7, a11, a15]"
  unfolding mtx_transpose_matrix_def transpose_pairs
  by (simp add: Let_def)

lemma sqrt_three_quarters: "sqrt (3 / 4) = sqrt 3 / 2"
  by (simp add: real_sqrt_divide)

lemma build_subface_transforms_value:
  "build_subface_transforms pgm =
     Inr (pgm\<lparr>pgm_face := (pgm_face pgm)
            \<lparr>m0 := mtx_set_unity, mt0 := mtx_set_unity,
             m1 := rot120, mt1 := rot240, m2 := rot240, mt2 := rot120\<rparr>\<rparr>)"
  unfolding build_subface_transforms_def
  apply (simp add: Let_def gut_vector_def zero_point_def zero_vector_def gut_normalize_vector_def
      c_div_def gut_cross_product_def build_rotation_matrix_def mtx_transpose_matrix_16
      sqrt_three_quarters rot120_def rot240_def mtx_set_unity_def)
  done

lemma less_6_cases: "i < (6::nat) \<Longrightarrow> i = 0 \<or> i = 1 \<or> i = 2 \<or> i = 3 \<or> i = 4 \<or> i = 5"
  by arith

lemma point_as_vector [simp]: "as_point (as_vector p) = p" "as_vector (as_point v) = v"
  by (simp_all add: as_point_def as_vector_def)

lemma subface_exchange_eq:
  "subface_exchange aSrc aDst pSrc pDst subface
    = as_point (vec4_times (as_vector pSrc) (subface ! aSrc ! aDst))"
  by (simp add: subface_exchange_def mtx_vec4_multiply_def)

lemma table_depends_on_rotations:
  "pgm_subface (build_a_transforms pgm) = pgm_subface (build_a_transforms
      \<lparr>pgm_face = \<lparr>tm = [], tmt = [], m0 = [], mt0 = [], m1 = m1 (pgm_face pgm), mt1 = mt1 (pgm_face pgm),
          m2 = m2 (pgm_face pgm), mt2 = mt2 (pgm_face pgm)\<rparr>,
       pgm_subface = [], pgm_ref = \<lparr>tri_a = 0, tri_b = 0, tri_c = 0, tri_A = 0, tri_B = 0, tri_C = 0\<rparr>, pgm_v = []\<rparr>)"
  by (simp add: build_a_transforms_def Let_def)

lemma sqrt3_sq [simp]: "sqrt 3 * (sqrt 3 * x) = 3 * x"
  by (simp add: mult.assoc[symmetric])

lemma region_table_value:
  "region_table =
    [[mtx_set_unity, mirror_b, rot240, mirror_a, rot120, mirror_x],
     [mirror_b, mtx_set_unity, mirror_a, rot240, mirror_x, rot120],
     [rot120, mirror_a, mtx_set_unity, mirror_x, rot240, mirror_b],
     [mirror_a, rot120, mirror_x, mtx_set_unity, mirror_b, rot240],
     [rot240, mirror_x, rot120, mirror_b, mtx_set_unity, mirror_a],
     [mirror_x, rot240, mirror_b, rot120, mirror_a, mtx_set_unity]]"
  unfolding region_table_def
  by (simp add: build_a_transforms_def Let_def mtx_create_scale_matrix_def mtx_set_unity_def
     mtx_multiply_matrix_def rot120_def rot240_def mirror_x_def mirror_a_def mirror_b_def)

lemma vec4_times_simps:
  "vec4_times v mtx_set_unity = v"
  "vec4_times (vec4_times v mirror_x) mirror_x = v"
  "vec4_times (vec4_times v mirror_a) mirror_a = v"
  "vec4_times (vec4_times v mirror_b) mirror_b = v"
  "vec4_times (vec4_times v rot120) rot240 = v"
  "vec4_times (vec4_times v rot240) rot120 = v"
  by (simp_all add: vec4_times_def mtx_set_unity_def rot120_def rot240_def mirror_x_def
      mirror_a_def mirror_b_def algebra_simps)

lemma region_table_inverse_pairs:
  assumes "i < 6" "j < 6"
  shows "vec4_times (vec4_times v (region_table ! i ! j)) (region_table ! j ! i) = v"
  using less_6_cases[OF assms(1)] less_6_cases[OF assms(2)]
  unfolding region_table_value
  by (elim disjE) (simp_all add: vec4_times_simps)

lemma region_table_diagonal:
  assumes "i < 6"
  shows "region_table ! i ! i = mtx_set_unity"
  using less_6_cases[OF assms(1)]
  unfolding region_table_value
  by (elim disjE) simp_all

lemma built_table:
  assumes "build_subface_transforms pgm0 = Inr pgm1"
  shows "pgm_subface (build_a_transforms pgm1) = region_table"
proof -
  have "pgm1 = pgm0\<lparr>pgm_face := (pgm_face pgm0)
            \<lparr>m0 := mtx_set_unity, mt0 := mtx_set_unity,
             m1 := rot120, mt1 := rot240, m2 := rot240, mt2 := rot120\<rparr>\<rparr>"
    using assms unfolding build_subface_transforms_value by simp
  then show ?thesis
    unfolding region_table_def by (subst table_depends_on_rotations) simp
qed

text \<open>
  C6: after \<^verbatim>\<open>build_subface_transforms\<close> and \<^verbatim>\<open>build_a_transforms\<close> have run, for all
  regions \<open>i\<close>, \<open>j\<close> in \<open>0..5\<close> and every point \<open>p\<close> the transform \<open>[i][j]\<close> followed by
  the transform \<open>[j][i]\<close> returns \<open>p\<close> within \<open>1e-9\<close> in every coordinate (over the reals
  it returns \<open>p\<close> itself), and the diagonal entry \<open>[i][i]\<close> is the identity matrix.
\<close>

theorem region_transforms_inverse_pairs:
  assumes "build_subface_transforms pgm0 = Inr pgm1" "i < 6" "j < 6"
  shows "let sub = pgm_subface (build_a_transforms pgm1);
             q = subface_exchange j i (subface_exchange i j p d sub) d' sub
         in \<bar>px q - px p\<bar> \<le> 0.000000001 \<and> \<bar>py q - py p\<bar> \<le> 0.000000001
          \<and> \<bar>pz q - pz p\<bar> \<le> 0.000000001 \<and> \<bar>pw q - pw p\<bar> \<le> 0.000000001
          \<and> sub ! i ! i = mtx_set_unity"
proof -
  have "subface_exchange j i (subface_exchange i j p d region_table) d' region_table = p"
    unfolding subface_exchange_eq
    by (simp add: region_table_inverse_pairs[OF assms(2,3)])
  then show ?thesis
    unfolding built_table[OF assms(1)] Let_def
    by (simp add: region_table_diagonal[OF assms(2)])
qed

text \<open>C6, witness: the table built from a blank program, regions 1 and 3, the point
  \<open>(1, 2, 3)\<close>.\<close>

theorem region_transforms_inverse_pairs_witness:
  "build_subface_transforms blank_program
     = Inr (blank_program\<lparr>pgm_face := (pgm_face blank_program)
            \<lparr>m0 := mtx_set_unity, mt0 := mtx_set_unity,
             m1 := rot120, mt1 := rot240, m2 := rot240, mt2 := rot120\<rparr>\<rparr>)
   \<and> (1::nat) < 6 \<and> (3::nat) < 6
   \<and> (let sub = pgm_subface (build_a_transforms (blank_program\<lparr>pgm_face := (pgm_face blank_program)
            \<lparr>m0 := mtx_set_unity, mt0 := mtx_set_unity,
             m1 := rot120, mt1 := rot240, m2 := rot240, mt2 := rot120\<rparr>\<rparr>));
            q = subface_exchange 3 1
                 (subface_exchange 1 3 \<lparr>px = 1, py = 2, pz = 3, pw = 1\<rparr> zero_point sub) zero_point sub
        in \<bar>px q - 1\<bar> \<le> 0.000000001 \<and> \<bar>py q - 2\<bar> \<le> 0.000000001
         \<and> \<bar>pz q - 3\<bar> \<le> 0.000000001 \<and> sub ! 1 ! 1 = mtx_set_unity)"
  using region_transforms_inverse_pairs[OF build_subface_transforms_value[of blank_program],
      of 1 3 "\<lparr>px = 1, py = 2, pz = 3, pw = 1\<rparr>" zero_point zero_point]
  by (simp add: Let_def build_subface_transforms_value)

section \<open>Vertex generator: the replicated points lie on the unit sphere\<close>

lemma normalize_result:
  assumes "gut_normalize_vector v = Inr v'"
  shows "sqrt (vi v * vi v + vj v * vj v + vk v * vk v) \<noteq> 0"
    and "v' = v\<lparr>vi := vi v / sqrt (vi v * vi v + vj v * vj v + vk v * vk v),
                vj := vj v / sqrt (vi v * vi v + vj v * vj v + vk v * vk v),
                vk := vk v / sqrt (vi v * vi v + vj v * vj v + vk v * vk v)\<rparr>"
  using assms
  by (auto simp: gut_normalize_vector_def Let_def c_div_def split: if_splits)

lemma unit_after_division:
  fixes a b c r :: real
  assumes "r \<noteq> 0" "r * r = a * a + b * b + c * c"
  shows "a / r * (a / r) + b / r * (b / r) + c / r * (c / r) = 1"
proof -
  have "a / r * (a / r) + b / r * (b / r) + c / r * (c / r) = (a * a + b * b + c * c) / (r * r)"
    by (simp add: add_divide_distrib)
  also have "\<dots> = 1" unfolding assms(2)[symmetric] using assms(1) by simp
  finally show ?thesis .
qed

lemma normalize_unit:
  assumes "gut_normalize_vector v = Inr v'"
  shows "unit3 v'"
proof -
  define r where "r = sqrt (vi v * vi v + vj v * vj v + vk v * vk v)"
  have d: "r \<noteq> 0" using normalize_result(1)[OF assms] by (simp add: r_def)
  have sq: "r * r = vi v * vi v + vj v * vj v + vk v * vk v"
    unfolding r_def by simp
  have "vi v' = vi v / r" "vj v' = vj v / r" "vk v' = vk v / r"
    using normalize_result(2)[OF assms] by (simp_all add: r_def)
  then show ?thesis
    unfolding unit3_def using unit_after_division[OF d sq] by simp
qed

lemma normalize_parallel:
  assumes "gut_normalize_vector v = Inr v'"
  shows "\<exists>d. d \<noteq> 0 \<and> vi v' = vi v / d \<and> vj v' = vj v / d \<and> vk v' = vk v / d \<and> vl v' = vl v"
  using normalize_result[OF assms] by (intro exI[of _ "sqrt (vi v * vi v + vj v * vj v + vk v * vk v)"]) simp

lemma normalize_of_unit:
  assumes "unit3 v"
  shows "gut_normalize_vector v = Inr v"
  using assms by (simp add: gut_normalize_vector_def unit3_def c_div_def)

lemma normalize_defined:
  assumes "vi v \<noteq> 0 \<or> vj v \<noteq> 0 \<or> vk v \<noteq> 0"
  shows "\<exists>v'. gut_normalize_vector v = Inr v'"
proof -
  have "vi v * vi v + vj v * vj v + vk v * vk v \<noteq> 0"
    using assms by (simp add: sum_squares_eq_zero_iff add_nonneg_eq_0_iff)
  then show ?thesis
    by (simp add: gut_normalize_vector_def c_div_def Let_def)
qed


lemma bind_fp_Inr:
  assumes "bind_fp m f = Inr r"
  obtains v where "m = Inr v" "f v = Inr r"
  using assms by (cases m) (simp_all add: bind_fp_def)

lemma cross_of_orthonormal_is_unit:
  fixes x1 x2 x3 z1 z2 z3 :: real
  assumes "x1 * x1 + x2 * x2 + x3 * x3 = 1" "z1 * z1 + z2 * z2 + z3 * z3 = 1"
    "x1 * z1 + x2 * z2 + x3 * z3 = 0"
  shows "(z2 * x3 - z3 * x2) * (z2 * x3 - z3 * x2) + (z3 * x1 - z1 * x3) * (z3 * x1 - z1 * x3)
       + (z1 * x2 - z2 * x1) * (z1 * x2 - z2 * x1) = 1"
proof -
  have "(z2 * x3 - z3 * x2) * (z2 * x3 - z3 * x2) + (z3 * x1 - z1 * x3) * (z3 * x1 - z1 * x3)
       + (z1 * x2 - z2 * x1) * (z1 * x2 - z2 * x1)
     = (x1 * x1 + x2 * x2 + x3 * x3) * (z1 * z1 + z2 * z2 + z3 * z3)
       - (x1 * z1 + x2 * z2 + x3 * z3) * (x1 * z1 + x2 * z2 + x3 * z3)"
    by (simp add: algebra_simps)
  then show ?thesis unfolding assms by simp
qed

lemma rotation_is_frame:
  assumes "rotation_matrix_from_triangle p0 p1 p2 = Inr (mr, mrt)"
  shows "is_frame mr" "mrt = mtx_transpose_matrix mr"
proof -
  from assms obtain x where x: "gut_normalize_vector (gut_vector p2 p0 zero_vector) = Inr x"
    and r1: "bind_fp (gut_normalize_vector (gut_vector p2 p1 zero_vector)) (\<lambda>y.
     let z = gut_cross_product x y zero_vector in
     bind_fp (gut_normalize_vector z) (\<lambda>z.
     let y = gut_cross_product z x y in
     bind_fp (gut_normalize_vector y) (\<lambda>y.
     let mr = [vi x, vi y, vi z, 0, vj x, vj y, vj z, 0, vk x, vk y, vk z, 0, 0, 0, 0, 1]
     in Inr (mr, mtx_transpose_matrix mr)))) = Inr (mr, mrt)"
    unfolding rotation_matrix_from_triangle_def Let_def by (rule bind_fp_Inr)
  from r1 obtain y where y: "gut_normalize_vector (gut_vector p2 p1 zero_vector) = Inr y"
    and r2: "bind_fp (gut_normalize_vector (gut_cross_product x y zero_vector)) (\<lambda>z.
     let y = gut_cross_product z x y in
     bind_fp (gut_normalize_vector y) (\<lambda>y.
     let mr = [vi x, vi y, vi z, 0, vj x, vj y, vj z, 0, vk x, vk y, vk z, 0, 0, 0, 0, 1]
     in Inr (mr, mtx_transpose_matrix mr))) = Inr (mr, mrt)"
    unfolding Let_def by (rule bind_fp_Inr)
  from r2 obtain z where z: "gut_normalize_vector (gut_cross_product x y zero_vector) = Inr z"
    and r3: "bind_fp (gut_normalize_vector (gut_cross_product z x y)) (\<lambda>y.
     let mr = [vi x, vi y, vi z, 0, vj x, vj y, vj z, 0, vk x, vk y, vk z, 0, 0, 0, 0, 1]
     in Inr (mr, mtx_transpose_matrix mr)) = Inr (mr, mrt)"
    unfolding Let_def by (rule bind_fp_Inr)
  from r3 obtain y' where y': "gut_normalize_vector (gut_cross_product z x y) = Inr y'"
    and r4: "(Inr ([vi x, vi y', vi z, 0, vj x, vj y', vj z, 0, vk x, vk y', vk z, 0, 0, 0, 0, 1],
        mtx_transpose_matrix
          [vi x, vi y', vi z, 0, vj x, vj y', vj z, 0, vk x, vk y', vk z, 0, 0, 0, 0, 1])
       :: fp_event + matrix \<times> matrix) = Inr (mr, mrt)"
    unfolding Let_def by (rule bind_fp_Inr)
  have ux: "vi x * vi x + vj x * vj x + vk x * vk x = 1"
    using normalize_unit[OF x] by (simp add: unit3_def)
  have uz: "vi z * vi z + vj z * vj z + vk z * vk z = 1"
    using normalize_unit[OF z] by (simp add: unit3_def)
  obtain d where d: "d \<noteq> 0" "vi z = (vj x * vk y - vk x * vj y) / d"
      "vj z = (vk x * vi y - vi x * vk y) / d" "vk z = (vi x * vj y - vj x * vi y) / d"
    using normalize_parallel[OF z] by (auto simp: gut_cross_product_def)
  have "vi x * vi z + vj x * vj z + vk x * vk z
     = (vi x * (vj x * vk y - vk x * vj y) + vj x * (vk x * vi y - vi x * vk y)
        + vk x * (vi x * vj y - vj x * vi y)) / d"
    unfolding d by (simp add: add_divide_distrib)
  also have "\<dots> = 0" by (simp add: algebra_simps)
  finally have xz: "vi x * vi z + vj x * vj z + vk x * vk z = 0" .
  have "unit3 (gut_cross_product z x y)"
    unfolding unit3_def gut_cross_product_def
    using cross_of_orthonormal_is_unit[OF ux uz xz] by simp
  from normalize_of_unit[OF this] y' have "y' = gut_cross_product z x y" by simp
  then have yv: "vi y' = vj z * vk x - vk z * vj x" "vj y' = vk z * vi x - vi z * vk x"
      "vk y' = vi z * vj x - vj z * vi x"
    by (simp_all add: gut_cross_product_def)
  have mr: "mr = [vi x, vi y', vi z, 0, vj x, vj y', vj z, 0, vk x, vk y', vk z, 0, 0, 0, 0, 1]"
    and "mrt = mtx_transpose_matrix mr"
    using r4 by auto
  then show "mrt = mtx_transpose_matrix mr" by simp
  show "is_frame mr"
    unfolding is_frame_def mr yv
    using ux uz xz by blast
qed

lemma norm2_as_point [simp]: "norm2 (as_point v) = vnorm2 v"
  by (simp add: norm2_def vnorm2_def as_point_def)

lemma vnorm2_as_vector [simp]: "vnorm2 (as_vector p) = norm2 p"
  by (simp add: norm2_def vnorm2_def as_vector_def)

lemma gram_identity:
  fixes x1 x2 x3 z1 z2 z3 p1 p2 p3 :: real
  shows "(p1 * x1 + p2 * x2 + p3 * x3)\<^sup>2 * (z1 * z1 + z2 * z2 + z3 * z3)
       + (p1 * z1 + p2 * z2 + p3 * z3)\<^sup>2 * (x1 * x1 + x2 * x2 + x3 * x3)
       - 2 * (p1 * x1 + p2 * x2 + p3 * x3) * (p1 * z1 + p2 * z2 + p3 * z3) * (x1 * z1 + x2 * z2 + x3 * z3)
       + (p1 * (z2 * x3 - z3 * x2) + p2 * (z3 * x1 - z1 * x3) + p3 * (z1 * x2 - z2 * x1))\<^sup>2
       = (p1 * p1 + p2 * p2 + p3 * p3)
         * ((x1 * x1 + x2 * x2 + x3 * x3) * (z1 * z1 + z2 * z2 + z3 * z3) - (x1 * z1 + x2 * z2 + x3 * z3)\<^sup>2)"
  by (simp add: power2_eq_square algebra_simps)

lemma frame_coordinates:
  fixes x1 x2 x3 z1 z2 z3 p1 p2 p3 :: real
  assumes "x1 * x1 + x2 * x2 + x3 * x3 = 1" "z1 * z1 + z2 * z2 + z3 * z3 = 1"
    "x1 * z1 + x2 * z2 + x3 * z3 = 0"
  shows "(p1 * x1 + p2 * x2 + p3 * x3)\<^sup>2
       + (p1 * (z2 * x3 - z3 * x2) + p2 * (z3 * x1 - z1 * x3) + p3 * (z1 * x2 - z2 * x1))\<^sup>2
       + (p1 * z1 + p2 * z2 + p3 * z3)\<^sup>2
       = p1 * p1 + p2 * p2 + p3 * p3"
  using gram_identity[of p1 x1 p2 x2 p3 x3 z1 z2 z3] unfolding assms by simp

lemma frame_combination:
  fixes x1 x2 x3 y1 y2 y3 z1 z2 z3 a b c :: real
  shows "(a * x1 + b * y1 + c * z1)\<^sup>2 + (a * x2 + b * y2 + c * z2)\<^sup>2 + (a * x3 + b * y3 + c * z3)\<^sup>2
     = a * a * (x1 * x1 + x2 * x2 + x3 * x3) + b * b * (y1 * y1 + y2 * y2 + y3 * y3)
     + c * c * (z1 * z1 + z2 * z2 + z3 * z3)
     + 2 * a * b * (x1 * y1 + x2 * y2 + x3 * y3) + 2 * a * c * (x1 * z1 + x2 * z2 + x3 * z3)
     + 2 * b * c * (y1 * z1 + y2 * z2 + y3 * z3)"
  by (simp add: power2_eq_square algebra_simps)

lemma frame_preserves_norm:
  assumes "is_frame m"
  shows "vnorm2 (vec4_times v m) = vnorm2 v"
proof -
  from assms obtain x1 x2 x3 z1 z2 z3 where
    u: "x1 * x1 + x2 * x2 + x3 * x3 = 1" "z1 * z1 + z2 * z2 + z3 * z3 = 1"
       "x1 * z1 + x2 * z2 + x3 * z3 = 0"
    and m: "m = [x1, z2 * x3 - z3 * x2, z1, 0, x2, z3 * x1 - z1 * x3, z2, 0,
           x3, z1 * x2 - z2 * x1, z3, 0, 0, 0, 0, 1]"
    unfolding is_frame_def by blast
  show ?thesis
    unfolding vnorm2_def vec4_times_def m
    using frame_coordinates[OF u, of "vi v" "vj v" "vk v"]
    by (simp add: power2_eq_square)
qed

lemma frame_transpose_preserves_norm:
  assumes "is_frame m"
  shows "vnorm2 (vec4_times v (mtx_transpose_matrix m)) = vnorm2 v"
proof -
  from assms obtain x1 x2 x3 z1 z2 z3 where
    u: "x1 * x1 + x2 * x2 + x3 * x3 = 1" "z1 * z1 + z2 * z2 + z3 * z3 = 1"
       "x1 * z1 + x2 * z2 + x3 * z3 = 0"
    and m: "m = [x1, z2 * x3 - z3 * x2, z1, 0, x2, z3 * x1 - z1 * x3, z2, 0,
           x3, z1 * x2 - z2 * x1, z3, 0, 0, 0, 0, 1]"
    unfolding is_frame_def by blast
  define y1 y2 y3 where "y1 = z2 * x3 - z3 * x2" and "y2 = z3 * x1 - z1 * x3" and "y3 = z1 * x2 - z2 * x1"
  have yy: "y1 * y1 + y2 * y2 + y3 * y3 = 1"
    unfolding y1_def y2_def y3_def by (rule cross_of_orthonormal_is_unit[OF u])
  have xy: "x1 * y1 + x2 * y2 + x3 * y3 = 0" and yz: "y1 * z1 + y2 * z2 + y3 * z3 = 0"
    unfolding y1_def y2_def y3_def by (simp_all add: algebra_simps)
  have "(vi v * x1 + vj v * y1 + vk v * z1)\<^sup>2 + (vi v * x2 + vj v * y2 + vk v * z2)\<^sup>2
      + (vi v * x3 + vj v * y3 + vk v * z3)\<^sup>2 = vi v * vi v + vj v * vj v + vk v * vk v"
    unfolding frame_combination u yy xy yz by simp
  then show ?thesis
    unfolding vnorm2_def vec4_times_def m mtx_transpose_matrix_16
    by (simp add: power2_eq_square y1_def y2_def y3_def)
qed

lemma table_entries_preserve_norm:
  "vnorm2 (vec4_times v mtx_set_unity) = vnorm2 v"
  "vnorm2 (vec4_times v mirror_x) = vnorm2 v"
  "vnorm2 (vec4_times v mirror_a) = vnorm2 v"
  "vnorm2 (vec4_times v mirror_b) = vnorm2 v"
  "vnorm2 (vec4_times v rot120) = vnorm2 v"
  "vnorm2 (vec4_times v rot240) = vnorm2 v"
  by (simp_all add: vnorm2_def vec4_times_def mtx_set_unity_def rot120_def rot240_def mirror_x_def
      mirror_a_def mirror_b_def algebra_simps)

lemma region_table_preserves_norm:
  assumes "i < 6" "j < 6"
  shows "vnorm2 (vec4_times v (region_table ! i ! j)) = vnorm2 v"
  using less_6_cases[OF assms(1)] less_6_cases[OF assms(2)]
  unfolding region_table_value
  by (elim disjE) (simp_all add: table_entries_preserve_norm)

lemma upt_6: "[0..<6] = [0, 1, 2, 3, 4, 5]"
  by (simp add: upt_rec)

lemma length_6_list:
  assumes "length xs = 6"
  obtains x0 x1 x2 x3 x4 x5 where "xs = [x0, x1, x2, x3, x4, x5]"
proof -
  from assms obtain x0 r0 where "xs = x0 # r0" "length r0 = 5" by (cases xs) auto
  moreover then obtain x1 r1 where "r0 = x1 # r1" "length r1 = 4" by (cases r0) auto
  moreover then obtain x2 r2 where "r1 = x2 # r2" "length r2 = 3" by (cases r1) auto
  moreover then obtain x3 r3 where "r2 = x3 # r3" "length r3 = 2" by (cases r2) auto
  moreover then obtain x4 r4 where "r3 = x4 # r4" "length r4 = 1" by (cases r3) auto
  moreover then obtain x5 where "r4 = [x5]" by (cases r4) auto
  ultimately show ?thesis using that by blast
qed

lemma mtx_vec4_multiply_6:
  assumes "length a = 6" "length b = 6"
  shows "mtx_vec4_multiply 6 a b m = map (\<lambda>v. vec4_times v m) a"
proof -
  obtain a0 a1 a2 a3 a4 a5 where a: "a = [a0, a1, a2, a3, a4, a5]"
    using assms(1) by (rule length_6_list)
  obtain b0 b1 b2 b3 b4 b5 where b: "b = [b0, b1, b2, b3, b4, b5]"
    using assms(2) by (rule length_6_list)
  show ?thesis
    unfolding a b by (simp add: mtx_vec4_multiply_def upt_6)
qed

lemma mtx_vec4_multiply_1:
  "mtx_vec4_multiply 1 [a] [b] m ! 0 = vec4_times a m"
  by (simp add: mtx_vec4_multiply_def)

text \<open>The six points that \<^verbatim>\<open>generate_all_vertices\<close> stores.\<close>

lemma generate_all_vertices_points:
  assumes "v < length (pgm_v pgm)" "length (v_p (pgm_v pgm ! v)) = 6" "a < 6" "i < 6"
  shows "v_p (pgm_v (generate_all_vertices pgm v a) ! v) ! i =
     as_point (vec4_times
       (if i = a then vec4_times (as_vector (v_p (pgm_v pgm ! v) ! a)) (tm (pgm_face pgm))
        else vec4_times (vec4_times (as_vector (v_p (pgm_v pgm ! v) ! a)) (tm (pgm_face pgm)))
               (pgm_subface pgm ! a ! i))
       (tmt (pgm_face pgm)))"
proof -
  obtain q0 q1 q2 q3 q4 q5 where q: "v_p (pgm_v pgm ! v) = [q0, q1, q2, q3, q4, q5]"
    using assms(2) by (rule length_6_list)
  show ?thesis
    using less_6_cases[OF assms(3)] less_6_cases[OF assms(4)] assms(1)
    unfolding generate_all_vertices_def Let_def subface_exchange_eq mtx_vec4_multiply_1 q
    by (elim disjE) (simp_all add: upt_6 mtx_vec4_multiply_6 point_as_vector)
qed

lemma unit_sphere_algebra:
  fixes s c t k :: real
  assumes "c * c + t * t = 1" "s * s + k * k = 1"
  shows "(s * c) * (s * c) + (s * t) * (s * t) + k * k = 1"
proof -
  have e: "(s * c) * (s * c) + (s * t) * (s * t) + k * k = (s * s) * (c * c + t * t) + k * k"
    by (simp add: algebra_simps)
  show ?thesis unfolding e assms(1) using assms(2) by simp
qed

lemma unit_sphere_point:
  "norm2 (gut_spherical_to_cartesian (sc\<lparr>radius := 1, inclination := inc', azimuth := az'\<rparr>) p) = 1"
proof -
  have "norm2 (gut_spherical_to_cartesian (sc\<lparr>radius := 1, inclination := inc', azimuth := az'\<rparr>) p)
      = (sin inc' * cos az') * (sin inc' * cos az') + (sin inc' * sin az') * (sin inc' * sin az')
      + cos inc' * cos inc'"
    by (simp add: norm2_def gut_spherical_to_cartesian_def)
  also have "\<dots> = 1"
    by (rule unit_sphere_algebra) (simp_all add: power2_eq_square[symmetric])
  finally show ?thesis .
qed

lemma replicate_6: "replicate 6 x = [x, x, x, x, x, x]"
  by (simp add: numeral_eq_Suc)

lemma DTR_minus: "DTR (- x) = - DTR x"
  by (simp add: DTR_def)

lemma build_face_transforms_eq:
  "build_face_transforms pgm =
     bind_fp (rotation_matrix_from_triangle face_p0 face_p1 face_p2) (\<lambda>(mr, mrt).
        Inr (pgm\<lparr>pgm_face := (pgm_face pgm)\<lparr>tm := mr, tmt := mrt\<rparr>\<rparr>))"
  unfolding build_face_transforms_def Let_def replicate_6
  by (simp add: gut_spherical_to_cartesian_def zero_point_def face_p0_def face_p1_def face_p2_def
      DTR_minus)

lemma build_face_transforms_frame:
  assumes "build_face_transforms pgm0 = Inr pgm1"
  shows "is_frame (tm (pgm_face pgm1))"
    and "tmt (pgm_face pgm1) = mtx_transpose_matrix (tm (pgm_face pgm1))"
    and "pgm_subface pgm1 = pgm_subface pgm0" "pgm_v pgm1 = pgm_v pgm0"
proof -
  from assms obtain r where r: "rotation_matrix_from_triangle face_p0 face_p1 face_p2 = Inr r"
    and p: "(case r of (mr, mrt) \<Rightarrow> Inr (pgm0\<lparr>pgm_face := (pgm_face pgm0)\<lparr>tm := mr, tmt := mrt\<rparr>\<rparr>))
        = (Inr pgm1 :: fp_event + PROGRAM)"
    unfolding build_face_transforms_eq by (rule bind_fp_Inr)
  obtain mr mrt where rr: "r = (mr, mrt)" by (cases r)
  have pgm1: "pgm1 = pgm0\<lparr>pgm_face := (pgm_face pgm0)\<lparr>tm := mr, tmt := mrt\<rparr>\<rparr>"
    using p unfolding rr by simp
  show "is_frame (tm (pgm_face pgm1))"
    using rotation_is_frame(1)[OF r[unfolded rr]] by (simp add: pgm1)
  show "tmt (pgm_face pgm1) = mtx_transpose_matrix (tm (pgm_face pgm1))"
    using rotation_is_frame(2)[OF r[unfolded rr]] by (simp add: pgm1)
  show "pgm_subface pgm1 = pgm_subface pgm0" "pgm_v pgm1 = pgm_v pgm0"
    by (simp_all add: pgm1)
qed

lemma build_subface_transforms_keeps:
  assumes "build_subface_transforms pgm1 = Inr pgm2"
  shows "tm (pgm_face pgm2) = tm (pgm_face pgm1)" "tmt (pgm_face pgm2) = tmt (pgm_face pgm1)"
  using assms unfolding build_subface_transforms_value by auto

lemma build_a_transforms_keeps:
  "pgm_face (build_a_transforms pgm) = pgm_face pgm"
  by (simp add: build_a_transforms_def Let_def)

text \<open>The replicated points keep the norm of the representative.\<close>

lemma generate_all_vertices_norm:
  assumes frame: "is_frame (tm (pgm_face pgm))"
      "tmt (pgm_face pgm) = mtx_transpose_matrix (tm (pgm_face pgm))"
      "pgm_subface pgm = region_table"
    and shape: "v < length (pgm_v pgm)" "length (v_p (pgm_v pgm ! v)) = 6" "a < 6" "i < 6"
  shows "norm2 (v_p (pgm_v (generate_all_vertices pgm v a) ! v) ! i) = norm2 (v_p (pgm_v pgm ! v) ! a)"
  unfolding generate_all_vertices_points[OF shape] frame(2,3)
  by (simp add: frame_transpose_preserves_norm[OF frame(1)] frame_preserves_norm[OF frame(1)]
      region_table_preserves_norm[OF shape(3,4)])

lemma place_and_replicate:
  assumes frame: "is_frame (tm (pgm_face pgm))"
      "tmt (pgm_face pgm) = mtx_transpose_matrix (tm (pgm_face pgm))"
      "pgm_subface pgm = region_table"
    and shape: "v < length (pgm_v pgm)" "length (v_p (pgm_v pgm ! v)) = 6" "a < 6" "i < 6"
  shows "norm2 (v_p (pgm_v (generate_all_vertices
            (pgm\<lparr>pgm_v := (pgm_v pgm)[v := (pgm_v pgm ! v)
                 \<lparr>v_sc := (v_sc (pgm_v pgm ! v))[a := sc\<lparr>radius := 1, inclination := inc', azimuth := az'\<rparr>],
                  v_p := (v_p (pgm_v pgm ! v))[a := gut_spherical_to_cartesian
                      (sc\<lparr>radius := 1, inclination := inc', azimuth := az'\<rparr>) (v_p (pgm_v pgm ! v) ! a)]\<rparr>]\<rparr>)
            v a) ! v) ! i) = 1"
proof -
  let ?p = "gut_spherical_to_cartesian
      (sc\<lparr>radius := 1, inclination := inc', azimuth := az'\<rparr>) (v_p (pgm_v pgm ! v) ! a)"
  let ?vert = "(pgm_v pgm ! v)
                 \<lparr>v_sc := (v_sc (pgm_v pgm ! v))[a := sc\<lparr>radius := 1, inclination := inc', azimuth := az'\<rparr>],
                  v_p := (v_p (pgm_v pgm ! v))[a := ?p]\<rparr>"
  let ?pgm = "pgm\<lparr>pgm_v := (pgm_v pgm)[v := ?vert]\<rparr>"
  have 1: "is_frame (tm (pgm_face ?pgm))"
      "tmt (pgm_face ?pgm) = mtx_transpose_matrix (tm (pgm_face ?pgm))"
      "pgm_subface ?pgm = region_table"
    using frame by simp_all
  have 2: "v < length (pgm_v ?pgm)" "length (v_p (pgm_v ?pgm ! v)) = 6"
    using shape by simp_all
  have 3: "v_p (pgm_v ?pgm ! v) ! a = ?p"
    using shape by simp
  show ?thesis
    unfolding generate_all_vertices_norm[OF 1 2 shape(3,4)] 3
    by (rule unit_sphere_point)
qed

lemma sqrt_norm_one: "x = 1 \<Longrightarrow> \<bar>sqrt x - 1\<bar> \<le> 0.000000001"
  by simp


lemma second_cross_is_unit:
  assumes x: "unit3 x" and z: "gut_normalize_vector (gut_cross_product x y c) = Inr z"
  shows "unit3 (gut_cross_product z x y')"
proof -
  have ux: "vi x * vi x + vj x * vj x + vk x * vk x = 1"
    using x by (simp add: unit3_def)
  have uz: "vi z * vi z + vj z * vj z + vk z * vk z = 1"
    using normalize_unit[OF z] by (simp add: unit3_def)
  obtain d where d: "d \<noteq> 0" "vi z = (vj x * vk y - vk x * vj y) / d"
      "vj z = (vk x * vi y - vi x * vk y) / d" "vk z = (vi x * vj y - vj x * vi y) / d"
    using normalize_parallel[OF z] by (auto simp: gut_cross_product_def)
  have "vi x * vi z + vj x * vj z + vk x * vk z
     = (vi x * (vj x * vk y - vk x * vj y) + vj x * (vk x * vi y - vi x * vk y)
        + vk x * (vi x * vj y - vj x * vi y)) / d"
    unfolding d by (simp add: add_divide_distrib)
  also have "\<dots> = 0" by (simp add: algebra_simps)
  finally have xz: "vi x * vi z + vj x * vj z + vk x * vk z = 0" .
  show ?thesis
    unfolding unit3_def gut_cross_product_def
    using cross_of_orthonormal_is_unit[OF ux uz xz] by simp
qed

lemma rotation_defined:
  assumes u: "px p0 - px p2 = 0" "py p0 - py p2 \<noteq> 0" "pz p0 - pz p2 = 0"
    and w: "pz p1 - pz p2 \<noteq> 0"
  shows "\<exists>r. rotation_matrix_from_triangle p0 p1 p2 = Inr r"
proof -
  obtain x where x: "gut_normalize_vector (gut_vector p2 p0 zero_vector) = Inr x"
    using normalize_defined[of "gut_vector p2 p0 zero_vector"] u(2)
    by (auto simp: gut_vector_def)
  obtain y where y: "gut_normalize_vector (gut_vector p2 p1 zero_vector) = Inr y"
    using normalize_defined[of "gut_vector p2 p1 zero_vector"] w
    by (auto simp: gut_vector_def)
  obtain d where d: "d \<noteq> 0" "vj x = (py p0 - py p2) / d" "vk x = (pz p0 - pz p2) / d"
    using normalize_parallel[OF x] by (auto simp: gut_vector_def)
  obtain e where e: "e \<noteq> 0" "vk y = (pz p1 - pz p2) / e"
    using normalize_parallel[OF y] by (auto simp: gut_vector_def)
  have "vi (gut_cross_product x y zero_vector) \<noteq> 0"
    unfolding gut_cross_product_def using d e u w by simp
  then obtain z where z: "gut_normalize_vector (gut_cross_product x y zero_vector) = Inr z"
    using normalize_defined[of "gut_cross_product x y zero_vector"] by blast
  have "gut_normalize_vector (gut_cross_product z x y) = Inr (gut_cross_product z x y)"
    by (rule normalize_of_unit) (rule second_cross_is_unit[OF normalize_unit[OF x] z])
  then show ?thesis
    unfolding rotation_matrix_from_triangle_def Let_def
    by (simp add: x y z)
qed

lemma arctan_half_lower: "pi / 8 < arctan (1 / 2)"
proof -
  have "arctan (1 / 2) + arctan (1 / 3) = arctan ((1 / 2 + 1 / 3) / (1 - (1 / 2) * (1 / 3)))"
    by (rule arctan_add) simp_all
  also have "\<dots> = pi / 4" by (simp add: arctan_one)
  finally have s: "arctan (1 / 2) + arctan (1 / 3) = pi / 4" .
  have "arctan (1 / 3) < arctan (1 / 2 :: real)"
    by (simp add: arctan_less_iff)
  then show ?thesis using s by simp
qed

lemma arctan_two_bounds: "pi / 4 < arctan 2" "arctan 2 < 3 * pi / 8"
proof -
  show "pi / 4 < arctan 2"
    using arctan_less_iff[of 1 2] by (simp add: arctan_one)
  have "arctan (1 / 2) = sgn (2::real) * pi / 2 - arctan 2"
    by (rule arctan_inverse) simp
  then show "arctan 2 < 3 * pi / 8" using arctan_half_lower by simp
qed

lemma face_angles:
  "0 < sin (DTR 180 - arctan 2)" "0 < sin (DTR 36)" "cos (DTR 180 - arctan 2) < cos (arctan 2)"
proof -
  have a: "3 / 4 < arctan 2" "arctan 2 < 3 / 2"
    using arctan_two_bounds pi_bounds by simp_all
  have t: "0 < DTR 180 - arctan 2" "DTR 180 - arctan 2 < pi" "arctan 2 < DTR 180 - arctan 2"
    using a pi_bounds by (simp_all add: DTR_def)
  show "0 < sin (DTR 180 - arctan 2)" using t by (intro sin_gt_zero)
  show "0 < sin (DTR 36)" using pi_bounds by (intro sin_gt_zero) (simp_all add: DTR_def)
  show "cos (DTR 180 - arctan 2) < cos (arctan 2)"
    using a t pi_bounds by (subst cos_mono_less_eq) simp_all
qed

lemma build_face_transforms_defined: "\<not> isl (build_face_transforms pgm)"
proof -
  have "\<exists>r. rotation_matrix_from_triangle face_p0 face_p1 face_p2 = Inr r"
  proof (rule rotation_defined)
    show "px face_p0 - px face_p2 = 0" "pz face_p0 - pz face_p2 = 0"
      by (simp_all add: face_p0_def face_p2_def)
    show "py face_p0 - py face_p2 \<noteq> 0"
      using face_angles(1,2) by (simp add: face_p0_def face_p2_def)
    show "pz face_p1 - pz face_p2 \<noteq> 0"
      using face_angles(3) by (simp add: face_p1_def face_p2_def)
  qed
  then obtain mr mrt where "rotation_matrix_from_triangle face_p0 face_p1 face_p2 = Inr (mr, mrt)"
    by auto
  then show ?thesis
    unfolding build_face_transforms_eq by simp
qed

lemma isr_projr: "\<not> isl x \<Longrightarrow> x = Inr (projr x)"
  by (cases x) simp_all

lemma builders_keep_vertices:
  assumes "build_face_transforms pgm0 = Inr pgm1" "build_subface_transforms pgm1 = Inr pgm2"
  shows "pgm_v (build_a_transforms pgm2) = pgm_v pgm0"
proof -
  have "pgm_v pgm2 = pgm_v pgm1"
    using assms(2) unfolding build_subface_transforms_value by auto
  then show ?thesis
    using build_face_transforms_frame(4)[OF assms(1)]
    by (simp add: build_a_transforms_def Let_def)
qed


end
